theory Spec2Isabelle
  imports Complex_Main "HOL-Library.Word" "HOL-Library.AList"
begin

unbundle bit_operations_syntax

section \<open>Python values used by the acquisition code\<close>

text \<open>
  The program is Python. Its integers are unbounded and are embedded as \<open>int\<close>:
  \<open>x >> n\<close> is \<open>drop_bit n x\<close> (floor division by a power of two, also for negative
  \<open>x\<close>), \<open>x << n\<close> is \<open>push_bit n x\<close>, \<open>//\<close> is \<open>div\<close> (both round towards minus
  infinity). A float is embedded as the real number it denotes. The drivers' decoding
  arithmetic is taken exactly, with the decimal rounding that the code asks for with
  \<open>round(x, n)\<close> modelled explicitly; the two computations whose returned value a
  claim is about, the words of the environment compensation and the mean and rounding
  of the window reduction, are modelled in binary64 (see \<open>double\<close> below).
\<close>

datatype py_error = OSError | IndexError | KeyError | ZeroDivisionError

text \<open>\<open>round(x, nd)\<close> on a float: to the nearest multiple of \<open>10 ^ -nd\<close>, ties to even.\<close>

definition py_round :: "nat \<Rightarrow> real \<Rightarrow> real" where
  "py_round nd x =
     (let s = 10 ^ nd; y = x * s; f = \<lfloor>y\<rfloor>; d = y - of_int f
      in of_int (if d < 1 / 2 then f else if 1 / 2 < d then f + 1
                 else if even f then f else f + 1) / s)"

text \<open>\<open>int(x)\<close> on a float: truncation towards zero.\<close>

definition py_int :: "real \<Rightarrow> int" where
  "py_int x = (if 0 \<le> x then \<lfloor>x\<rfloor> else \<lceil>x\<rceil>)"

text \<open>
  Binary64. \<open>rne y\<close> is the integer nearest to \<open>y\<close>, ties to even. \<open>double x\<close> is
  the double nearest to the real \<open>x\<close>, ties to even: 53 significant bits, and no bit
  below \<open>2 ^ -1074\<close> (gradual underflow). The exponent has no upper limit here; a
  result of magnitude \<open>2 ^ 1024\<close> or more is the case in which the machine returns
  an infinity (\<open>overflows\<close>). A float operation returns the double of its exact
  result, and a float literal is the double of the decimal written.
\<close>

definition rne :: "real \<Rightarrow> int" where
  "rne y =
     (let f = \<lfloor>y\<rfloor>; d = y - of_int f
      in if d < 1 / 2 then f else if 1 / 2 < d then f + 1 else if even f then f else f + 1)"

definition double :: "real \<Rightarrow> real" where
  "double x =
     (if x = 0 then 0
      else
        let e = max (\<lfloor>log 2 \<bar>x\<bar>\<rfloor> - 52) (- 1074)
        in of_int (rne (x / 2 powi e)) * 2 powi e)"

definition is_double :: "real \<Rightarrow> bool" where
  "is_double x \<longleftrightarrow> double x = x"

definition overflows :: "real \<Rightarrow> bool" where
  "overflows x \<longleftrightarrow> 2 ^ 1024 \<le> \<bar>x\<bar>"

text \<open>
  \<open>round(x, nd)\<close> as a float operation: the decimal nearest to the double \<open>x\<close>, and
  of that decimal the nearest double.
\<close>

definition round_float :: "nat \<Rightarrow> real \<Rightarrow> real" where
  "round_float nd x = double (py_round nd x)"

text \<open>
  A bus transaction either raises (\<open>Inl\<close>) or delivers the bytes read (\<open>Inr\<close>).
  An index past the end of the delivered list raises IndexError in the source; each
  driver below tests the length before it indexes.
\<close>

type_synonym xfer = "py_error + int list"

section \<open>Pressure driver (bmp280_simple.py)\<close>

record bmp280 =
  dig_T1 :: int
  dig_T2 :: int
  dig_T3 :: int
  dig_P1 :: int
  dig_P2 :: int
  dig_P3 :: int
  dig_P4 :: int
  dig_P5 :: int
  dig_P6 :: int
  dig_P7 :: int
  dig_P8 :: int
  dig_P9 :: int
  t_fine :: int

text \<open>\<open>_read_unsigned_short\<close> and \<open>_read_signed_short\<close>, on the two bytes read.\<close>

definition read_unsigned_short :: "int \<Rightarrow> int \<Rightarrow> int" where
  "read_unsigned_short d0 d1 = d0 + push_bit 8 d1"

definition read_signed_short :: "int \<Rightarrow> int \<Rightarrow> int" where
  "read_signed_short d0 d1 =
     (let v = d0 + push_bit 8 d1 in if v > 32767 then v - 65536 else v)"

text \<open>\<open>_read_raw_data\<close>: the 6-byte burst from register 0xF7, as (temp_raw, press_raw).\<close>

definition read_raw_data :: "xfer \<Rightarrow> py_error + (int \<times> int)" where
  "read_raw_data x =
     (case x of
        Inl e \<Rightarrow> Inl e
      | Inr data \<Rightarrow>
          if length data < 6 then Inl IndexError
          else
            let press_raw = push_bit 12 (data ! 0) OR push_bit 4 (data ! 1) OR drop_bit 4 (data ! 2);
                temp_raw = push_bit 12 (data ! 3) OR push_bit 4 (data ! 4) OR drop_bit 4 (data ! 5)
            in Inr (temp_raw, press_raw))"

text \<open>\<open>_compensate_temperature\<close>: stores \<open>t_fine\<close> in the driver and returns the temperature.\<close>

definition compensate_temperature :: "bmp280 \<Rightarrow> int \<Rightarrow> real \<times> bmp280" where
  "compensate_temperature s temp_raw =
     (let var1 = drop_bit 11 ((drop_bit 3 temp_raw - push_bit 1 (dig_T1 s)) * dig_T2 s);
          var2 = drop_bit 14
                   (drop_bit 12 ((drop_bit 4 temp_raw - dig_T1 s) * (drop_bit 4 temp_raw - dig_T1 s))
                    * dig_T3 s);
          s' = s\<lparr>t_fine := var1 + var2\<rparr>;
          temperature = drop_bit 8 (t_fine s' * 5 + 128)
      in (of_int temperature / 100, s'))"

text \<open>\<open>_compensate_pressure\<close>: \<open>None\<close> when the divisor \<open>var1\<close> is zero.\<close>

definition compensate_pressure :: "bmp280 \<Rightarrow> int \<Rightarrow> real option" where
  "compensate_pressure s press_raw =
     (let var1 = t_fine s - 128000;
          var2 = var1 * var1 * dig_P6 s;
          var2 = var2 + push_bit 17 (var1 * dig_P5 s);
          var2 = var2 + push_bit 35 (dig_P4 s);
          var1 = drop_bit 8 (var1 * var1 * dig_P3 s) + push_bit 12 (var1 * dig_P2 s);
          var1 = drop_bit 33 ((push_bit 47 1 + var1) * dig_P1 s)
      in if var1 = 0 then None
         else
           let p = 1048576 - press_raw;
               p = ((push_bit 31 p - var2) * 3125) div var1;
               var1 = drop_bit 25 (dig_P9 s * drop_bit 13 p * drop_bit 13 p);
               var2 = drop_bit 19 (dig_P8 s * p);
               p = drop_bit 8 (p + var1 + var2) + push_bit 4 (dig_P7 s)
           in Some (of_int p / 25600))"

text \<open>
  \<open>read\<close>: every exception is caught and turned into \<open>(None, None)\<close>. The tests
  \<open>temp_raw is None\<close> and \<open>temperature is None\<close> of the source can never succeed and
  have no branch here.
\<close>

definition bmp280_read :: "bmp280 \<Rightarrow> xfer \<Rightarrow> (real option \<times> real option) \<times> bmp280" where
  "bmp280_read s x =
     (case read_raw_data x of
        Inl e \<Rightarrow> ((None, None), s)
      | Inr (temp_raw, press_raw) \<Rightarrow>
          let (temperature, s1) = compensate_temperature s temp_raw
          in case compensate_pressure s1 press_raw of
               None \<Rightarrow> ((None, None), s1)
             | Some pressure \<Rightarrow>
                 ((Some (py_round 2 temperature), Some (py_round 2 pressure)), s1))"

text \<open>
  The two integers the specification names in the pressure pipeline, read off the same
  source lines: the first-stage divisor (the value tested against zero) and the
  fixed-point result \<open>p\<close> before the final float division.
\<close>

definition pressure_divisor :: "bmp280 \<Rightarrow> int" where
  "pressure_divisor s =
     (let var1 = t_fine s - 128000;
          var1 = drop_bit 8 (var1 * var1 * dig_P3 s) + push_bit 12 (var1 * dig_P2 s)
      in drop_bit 33 ((push_bit 47 1 + var1) * dig_P1 s))"

definition p_fixed :: "bmp280 \<Rightarrow> int \<Rightarrow> int" where
  "p_fixed s press_raw =
     (let var1 = t_fine s - 128000;
          var2 = var1 * var1 * dig_P6 s;
          var2 = var2 + push_bit 17 (var1 * dig_P5 s);
          var2 = var2 + push_bit 35 (dig_P4 s);
          p = 1048576 - press_raw;
          p = ((push_bit 31 p - var2) * 3125) div pressure_divisor s;
          var1 = drop_bit 25 (dig_P9 s * drop_bit 13 p * drop_bit 13 p);
          var2 = drop_bit 19 (dig_P8 s * p)
      in drop_bit 8 (p + var1 + var2) + push_bit 4 (dig_P7 s))"

definition temperature_fixed :: "int \<Rightarrow> int" where
  "temperature_fixed tf = drop_bit 8 (tf * 5 + 128)"

text \<open>The calibration table and raw samples of the sensor's data sheet example.\<close>

definition datasheet_calib :: bmp280 where
  "datasheet_calib =
     \<lparr>dig_T1 = 27504, dig_T2 = 26435, dig_T3 = - 1000,
      dig_P1 = 36477, dig_P2 = - 10685, dig_P3 = 3024, dig_P4 = 2855, dig_P5 = 140,
      dig_P6 = - 7, dig_P7 = 15500, dig_P8 = - 14600, dig_P9 = 6000, t_fine = 0\<rparr>"

section \<open>Gas-index driver (ens160_simple.py)\<close>

text \<open>
  The bus as the driver's writes see it: \<open>acks reg\<close> says whether the device
  acknowledges a write to register \<open>reg\<close> (a write that is not acknowledged raises),
  \<open>written\<close> is the log of the block writes that went through, oldest first, each as
  (device address, register, bytes).
\<close>

record i2c_bus =
  acks :: "int \<Rightarrow> bool"
  written :: "(int \<times> int \<times> int list) list"

definition write_i2c_block_data :: "i2c_bus \<Rightarrow> int \<Rightarrow> int \<Rightarrow> int list \<Rightarrow> py_error + i2c_bus" where
  "write_i2c_block_data bus addr reg data =
     (if acks bus reg then Inr (bus\<lparr>written := written bus @ [(addr, reg, data)]\<rparr>)
      else Inl OSError)"

text \<open>The collector constructs the driver with its default address.\<close>

definition ens160_address :: int where
  "ens160_address = 0x52"

text \<open>\<open>_write_word\<close>\<close>

definition write_word :: "i2c_bus \<Rightarrow> int \<Rightarrow> int \<Rightarrow> py_error + i2c_bus" where
  "write_word bus reg v =
     (let low = v AND 0xFF;
          high = drop_bit 8 v AND 0xFF
      in write_i2c_block_data bus ens160_address reg [low, high])"

text \<open>
  \<open>set_environment\<close>: the sum, the quotient and the two products are float
  operations and \<open>273.15\<close> is a float literal. \<open>int\<close> of an infinity raises, and
  the bare \<open>except\<close> turns that, like a failed write, into the result \<open>False\<close>; a
  failure on the temperature word skips the humidity word.
\<close>

definition set_environment :: "i2c_bus \<Rightarrow> real \<Rightarrow> real \<Rightarrow> bool \<times> i2c_bus" where
  "set_environment bus temperature humidity =
     (let t = double (double (temperature + double 273.15) * 64)
      in if overflows t then (False, bus)
         else
           let temp_k = py_int t
           in case write_word bus 0x13 temp_k of
                Inl e \<Rightarrow> (False, bus)
              | Inr bus1 \<Rightarrow>
                  let h = double (double (humidity / 100) * 512)
                  in if overflows h then (False, bus1)
                     else
                       let rh_fraction = py_int h
                       in case write_word bus1 0x15 rh_fraction of
                            Inl e \<Rightarrow> (False, bus1)
                          | Inr bus2 \<Rightarrow> (True, bus2))"

text \<open>The dictionary \<open>read\<close> returns has four fixed keys: a record.\<close>

record ens_data =
  aqi :: int
  aqi_desc :: int
  tvoc_ppb :: int
  eco2_ppm :: int

text \<open>
  \<open>read\<close>: one byte from 0x21, two bytes from 0x22, two bytes from 0x24; any
  exception gives \<open>None\<close>.
\<close>

definition ens160_read :: "(py_error + int) \<Rightarrow> xfer \<Rightarrow> xfer \<Rightarrow> ens_data option" where
  "ens160_read a tv ec =
     (case a of
        Inl e \<Rightarrow> None
      | Inr aqi_byte \<Rightarrow>
          (case tv of
             Inl e \<Rightarrow> None
           | Inr tvoc_data \<Rightarrow>
               if length tvoc_data < 2 then None
               else
                 (case ec of
                    Inl e \<Rightarrow> None
                  | Inr eco2_data \<Rightarrow>
                      if length eco2_data < 2 then None
                      else Some \<lparr>aqi = aqi_byte, aqi_desc = aqi_byte,
                                 tvoc_ppb = tvoc_data ! 0 + push_bit 8 (tvoc_data ! 1),
                                 eco2_ppm = eco2_data ! 0 + push_bit 8 (eco2_data ! 1)\<rparr>)))"

section \<open>Humidity and temperature driver (aht21_simple.py)\<close>

text \<open>
  \<open>read\<close>: the argument is the outcome of the trigger write followed by the 6-byte
  read (\<open>Inl\<close> when either raises). Returns (humidity, temperature), or
  \<open>(None, None)\<close> on an exception or when a value is out of range.
\<close>

definition aht21_read :: "xfer \<Rightarrow> real option \<times> real option" where
  "aht21_read x =
     (case x of
        Inl e \<Rightarrow> (None, None)
      | Inr data \<Rightarrow>
          if length data < 6 then (None, None)
          else
            let humidity_raw = push_bit 12 (data ! 1) OR push_bit 4 (data ! 2) OR drop_bit 4 (data ! 3);
                humidity = of_int humidity_raw / 1048576 * 100;
                temperature_raw = push_bit 16 (data ! 3 AND 0x0F) OR push_bit 8 (data ! 4) OR data ! 5;
                temperature = of_int temperature_raw / 1048576 * 200 - 50
            in if (0 \<le> humidity \<and> humidity \<le> 100) \<and> (- 40 \<le> temperature \<and> temperature \<le> 85)
               then (Some (py_round 1 humidity), Some (py_round 1 temperature))
               else (None, None))"

section \<open>Analog gas driver (mq2_simple.py)\<close>

record mq2_data =
  adc :: int
  voltage :: real
  status :: int

text \<open>
  \<open>read\<close>: the argument is what the converter channel delivers, (value, voltage), or
  the exception the channel raises; the driver has no handler of its own.
\<close>

definition mq2_read :: "(py_error + int \<times> real) \<Rightarrow> py_error + mq2_data" where
  "mq2_read ch =
     (case ch of
        Inl e \<Rightarrow> Inl e
      | Inr (adc_value, v) \<Rightarrow>
          let st = (if v < 0.5 then 0 else if v < 0.8 then 1 else if v < 1.2 then 2 else 3)
          in Inr \<lparr>adc = adc_value, voltage = py_round 3 v, status = st\<rparr>)"

section \<open>Collector (sensor_collector.py)\<close>

text \<open>
  A reading and an aggregated record are Python dictionaries from field names to
  numbers. They are association lists in insertion order: \<open>d[k] = v\<close> is
  \<open>AList.update k v d\<close> (in place for a key that is there, appended otherwise),
  \<open>d.pop(k, None)\<close> is \<open>AList.delete k d\<close>, \<open>d.get(k)\<close> is \<open>map_of d k\<close>. Every
  value stored is an \<open>int\<close> or a \<open>float\<close>, so the test
  \<open>isinstance(value, (int, float))\<close> of the reduction holds for every item.
\<close>

type_synonym pydict = "(string \<times> real) list"

text \<open>
  \<open>calculate_altitude\<close>, called by the collector with the default sea-level pressure
  1013.25. The base of the power is positive past the guard, so neither handler of the
  source can run.
\<close>

definition calculate_altitude :: "real \<Rightarrow> real" where
  "calculate_altitude pressure_hpa =
     (if pressure_hpa \<le> 0 then 0
      else py_round 2 (44330 * (1 - (pressure_hpa / 1013.25) powr 0.1903)))"

text \<open>
  The collector's own attributes. \<open>sensors\<close> holds the keys of the dictionary of driver
  objects; the one driver object with data of its own, the pressure driver, is passed
  beside the collector (the dictionary holds a reference to it).
\<close>

record collector =
  sensors :: "string list"
  reading_count :: int
  initialized :: bool
  init_success :: "string \<Rightarrow> bool"

text \<open>What the hardware delivers during one pass over the four drivers, and the clock.\<close>

record cycle =
  aht_xfer :: xfer
  bmp_xfer :: xfer
  ens_aqi :: "py_error + int"
  ens_tvoc :: xfer
  ens_eco2 :: xfer
  mq2_channel :: "py_error + int \<times> real"
  clock :: real

text \<open>
  The four blocks of \<open>read_single_measurement\<close>. In each, \<open>self.sensors[name]\<close>
  raises KeyError when the key is gone, and the block's handler catches it.
\<close>

definition read_aht21 :: "collector \<Rightarrow> cycle \<Rightarrow> pydict \<Rightarrow> pydict" where
  "read_aht21 c cy data =
     (if init_success c ''aht21'' then
        (if ''aht21'' \<in> set (sensors c) then
           (case aht21_read (aht_xfer cy) of
              (Some humidity, Some temperature) \<Rightarrow>
                AList.update ''humidity'' humidity
                  (AList.update ''temperature_aht'' temperature data)
            | _ \<Rightarrow> data)
         else data)
      else data)"

definition read_bmp280 :: "collector \<Rightarrow> bmp280 \<Rightarrow> cycle \<Rightarrow> pydict \<Rightarrow> pydict \<times> bmp280" where
  "read_bmp280 c b cy data =
     (if init_success c ''bmp280'' then
        (if ''bmp280'' \<in> set (sensors c) then
           (case bmp280_read b (bmp_xfer cy) of
              ((Some temp_bmp, Some pressure), b') \<Rightarrow>
                (AList.update ''altitude'' (calculate_altitude pressure)
                   (AList.update ''pressure'' pressure
                      (AList.update ''temperature_bmp'' temp_bmp data)), b')
            | (_, b') \<Rightarrow> (data, b'))
         else (data, b))
      else (data, b))"

definition read_ens160 :: "collector \<Rightarrow> cycle \<Rightarrow> pydict \<Rightarrow> pydict" where
  "read_ens160 c cy data =
     (if init_success c ''ens160'' then
        (if ''ens160'' \<in> set (sensors c) then
           (case ens160_read (ens_aqi cy) (ens_tvoc cy) (ens_eco2 cy) of
              Some e \<Rightarrow>
                AList.update ''eco2'' (of_int (eco2_ppm e))
                  (AList.update ''tvoc'' (of_int (tvoc_ppb e))
                     (AList.update ''aqi'' (of_int (aqi e)) data))
            | None \<Rightarrow> data)
         else data)
      else data)"

definition read_mq2 :: "collector \<Rightarrow> cycle \<Rightarrow> pydict \<Rightarrow> pydict" where
  "read_mq2 c cy data =
     (if init_success c ''mq2'' then
        (if ''mq2'' \<in> set (sensors c) then
           (case mq2_read (mq2_channel cy) of
              Inr m \<Rightarrow>
                AList.update ''mq2_status'' (of_int (status m))
                  (AList.update ''mq2_voltage'' (voltage m)
                     (AList.update ''mq2_adc'' (of_int (adc m)) data))
            | Inl e \<Rightarrow> data)
         else data)
      else data)"

text \<open>The fields the four drivers contribute in one cycle, before the metadata.\<close>

definition driver_fields :: "collector \<Rightarrow> bmp280 \<Rightarrow> cycle \<Rightarrow> pydict \<times> bmp280" where
  "driver_fields c b cy =
     (let data = read_aht21 c cy [];
          (data, b') = read_bmp280 c b cy data;
          data = read_ens160 c cy data;
          data = read_mq2 c cy data
      in (data, b'))"

text \<open>The tail of \<open>read_single_measurement\<close>, run when \<open>data\<close> is not empty.\<close>

definition finish_reading :: "collector \<Rightarrow> cycle \<Rightarrow> pydict \<Rightarrow> pydict" where
  "finish_reading c cy data =
     (let data = AList.update ''timestamp'' (clock cy) data;
          data = AList.update ''reading_count'' (of_int (reading_count c)) data;
          data =
            (case map_of data ''temperature_aht'' of
               Some t \<Rightarrow>
                 AList.update ''temperature_source'' 0 (AList.update ''temperature'' t data)
             | None \<Rightarrow>
                 (case map_of data ''temperature_bmp'' of
                    Some t \<Rightarrow>
                      AList.update ''temperature_source'' 1 (AList.update ''temperature'' t data)
                  | None \<Rightarrow> data));
          data = AList.delete ''temperature_aht'' data;
          data = AList.delete ''temperature_bmp'' data
      in AList.update ''data_source'' 0 data)"

definition read_single_measurement ::
    "collector \<Rightarrow> bmp280 \<Rightarrow> cycle \<Rightarrow> pydict option \<times> collector \<times> bmp280" where
  "read_single_measurement c b cy =
     (let (data, b') = driver_fields c b cy
      in if data \<noteq> [] then
           (Some (finish_reading c cy data), c\<lparr>reading_count := reading_count c + 1\<rparr>, b')
         else (None, c, b'))"

text \<open>
  \<open>_calculate_averages\<close>. \<open>now\<close> is the clock when it runs. \<open>collect_values\<close> is the
  double loop that fills \<open>numeric_fields\<close>, \<open>reduce_fields\<close> the loop over its items.
\<close>

definition append_value :: "string \<Rightarrow> real \<Rightarrow> (string \<times> real list) list \<Rightarrow> (string \<times> real list) list" where
  "append_value key v numeric_fields =
     (case map_of numeric_fields key of
        None \<Rightarrow> AList.update key [v] numeric_fields
      | Some vs \<Rightarrow> AList.update key (vs @ [v]) numeric_fields)"

definition collect_values :: "pydict list \<Rightarrow> (string \<times> real list) list" where
  "collect_values readings =
     fold (\<lambda>reading nf. fold (\<lambda>(key, v) nf. append_value key v nf) reading nf) readings []"

text \<open>
  \<open>statistics.mean\<close> adds the values as exact fractions, divides by their number and
  converts the quotient to a float once (for integer values with an integral mean the
  conversion changes nothing).
\<close>

definition mean :: "real list \<Rightarrow> real" where
  "mean vs = double (sum_list vs / of_nat (length vs))"

definition reduce_field :: "pydict \<Rightarrow> string \<times> real list \<Rightarrow> pydict \<Rightarrow> pydict" where
  "reduce_field last_reading kv result =
     (case kv of (key, vs) \<Rightarrow>
        if length vs > 0 then
          (if key \<in> set [''aqi'', ''mq2_status'', ''temperature_source''] then
             AList.update key (case map_of last_reading key of Some v \<Rightarrow> v | None \<Rightarrow> 0) result
           else AList.update key (round_float 2 (mean vs)) result)
        else result)"

definition calculate_averages :: "real \<Rightarrow> pydict list \<Rightarrow> pydict" where
  "calculate_averages now readings =
     (if readings = [] then []
      else
        let result = [(''timestamp'', now), (''samples_count'', of_nat (length readings)),
                      (''data_source'', 1)];
            last_reading = last readings;
            numeric_fields = collect_values readings;
            result = fold (reduce_field last_reading) numeric_fields result
        in case map_of result ''pressure'' of
             Some p \<Rightarrow> AList.update ''altitude'' (calculate_altitude p) result
           | None \<Rightarrow> result)"

text \<open>
  \<open>collect_multiple_readings\<close>. \<open>hw i\<close> is what the hardware delivers in pass \<open>i\<close> of
  the loop, \<open>now\<close> the clock after the loop. \<open>range(num_readings)\<close> is empty for a
  count that is not positive. The sleeps between passes have no effect on the values.
\<close>

fun collect_loop ::
    "collector \<Rightarrow> bmp280 \<Rightarrow> (nat \<Rightarrow> cycle) \<Rightarrow> nat \<Rightarrow> nat \<Rightarrow> pydict list
       \<Rightarrow> pydict list \<times> collector \<times> bmp280" where
  "collect_loop c b hw i 0 all_readings = (all_readings, c, b)"
| "collect_loop c b hw i (Suc n) all_readings =
     (case read_single_measurement c b (hw i) of
        (Some data, c', b') \<Rightarrow>
          collect_loop c' b' hw (Suc i) n
            (if data \<noteq> [] then all_readings @ [data] else all_readings)
      | (None, c', b') \<Rightarrow> collect_loop c' b' hw (Suc i) n all_readings)"

definition collect_multiple_readings ::
    "collector \<Rightarrow> bmp280 \<Rightarrow> int \<Rightarrow> (nat \<Rightarrow> cycle) \<Rightarrow> real \<Rightarrow> pydict \<times> collector \<times> bmp280" where
  "collect_multiple_readings c b num_readings hw now =
     (case collect_loop c b hw 0 (nat num_readings) [] of
        (all_readings, c', b') \<Rightarrow>
          if all_readings = [] then
            ([(''error_code'', 1), (''timestamp'', now), (''samples_count'', 0)], c', b')
          else (calculate_averages now all_readings, c', b'))"

text \<open>
  \<open>close\<close>: each driver's own \<open>close\<close> acts on its bus handle only; the collector is
  marked uninitialised and its dictionary of drivers is emptied. \<open>init_success\<close> is
  not touched.
\<close>

definition close :: "collector \<Rightarrow> collector" where
  "close c = c\<lparr>initialized := False, sensors := []\<rparr>"

section \<open>Alarm actuator (buzzer_control.py)\<close>

text \<open>
  The controller and the timers it has created so far. A \<open>threading.Timer\<close> waits
  until its deadline and then runs its callback once, unless \<open>cancel\<close> reached it
  while it was waiting; \<open>cancel\<close> on a timer that is no longer waiting does nothing,
  so the test \<open>is_alive()\<close> before it does not change the outcome. \<open>timer\<close> is the
  index of the timer object the controller references. Calls and callbacks are taken
  one at a time, each running to its end before the next.
\<close>

datatype timer_state = Waiting | Cancelled | Fired

record py_timer =
  deadline :: real
  tstate :: timer_state

record buzzer =
  buzzing :: bool
  pin_high :: bool
  timer :: "nat option"
  timers :: "py_timer list"
  time_now :: real


definition cancel :: "nat \<Rightarrow> buzzer \<Rightarrow> buzzer" where
  "cancel i s =
     (if i < length (timers s) \<and> tstate (timers s ! i) = Waiting
      then s\<lparr>timers := (timers s)[i := (timers s ! i)\<lparr>tstate := Cancelled\<rparr>]\<rparr>
      else s)"

definition stop_buzzing :: "buzzer \<Rightarrow> buzzer" where
  "stop_buzzing s =
     (let s1 = (if buzzing s then s\<lparr>pin_high := True, buzzing := False\<rparr> else s)
      in case timer s1 of
           Some i \<Rightarrow> cancel i s1
         | None \<Rightarrow> s1)"

definition start_buzzing :: "real \<Rightarrow> buzzer \<Rightarrow> buzzer" where
  "start_buzzing duration_seconds s =
     (let s1 = (if buzzing s then stop_buzzing s else s);
          s2 = s1\<lparr>pin_high := False, buzzing := True\<rparr>
      in s2\<lparr>timers := timers s2 @ [\<lparr>deadline = time_now s2 + duration_seconds, tstate = Waiting\<rparr>],
             timer := Some (length (timers s2))\<rparr>)"

text \<open>
  Timer \<open>i\<close> reaches its deadline: if it is still waiting, its callback
  \<open>stop_buzzing\<close> runs.
\<close>

definition fire_due :: "nat \<Rightarrow> buzzer \<Rightarrow> buzzer" where
  "fire_due i s =
     (if i < length (timers s) \<and> tstate (timers s ! i) = Waiting \<and> deadline (timers s ! i) \<le> time_now s
      then stop_buzzing (s\<lparr>timers := (timers s)[i := (timers s ! i)\<lparr>tstate := Fired\<rparr>]\<rparr>)
      else s)"

text \<open>Time passes: every timer whose deadline has come gets its turn, oldest first.\<close>

definition elapse :: "real \<Rightarrow> buzzer \<Rightarrow> buzzer" where
  "elapse dt s =
     (if dt < 0 then s
      else fold fire_due [0..<length (timers s)] (s\<lparr>time_now := time_now s + dt\<rparr>))"

datatype event = Start real | Stop | Elapse real

fun step :: "event \<Rightarrow> buzzer \<Rightarrow> buzzer" where
  "step (Start d) s = start_buzzing d s"
| "step Stop s = stop_buzzing s"
| "step (Elapse dt) s = elapse dt s"

definition run :: "event list \<Rightarrow> buzzer \<Rightarrow> buzzer" where
  "run es s = fold step es s"





section \<open>Auxiliary notions and concrete inputs\<close>

text \<open>
  The state of the pressure driver after the data sheet's temperature sample has been
  compensated, and a calibration table whose coefficient \<open>dig_P1\<close> is zero.
\<close>

definition datasheet_state :: bmp280 where
  "datasheet_state = snd (compensate_temperature datasheet_calib 519888)"

definition faulty_calib :: bmp280 where
  "faulty_calib = datasheet_calib\<lparr>dig_P1 := 0\<rparr>"

text \<open>A collector whose four drivers were all set up, and a pass in which all four answer.\<close>

definition ready_collector :: collector where
  "ready_collector =
     \<lparr>sensors = [''aht21'', ''bmp280'', ''ens160'', ''mq2''], reading_count = 0,
      initialized = True, init_success = (\<lambda>k. True)\<rparr>"

definition good_cycle :: cycle where
  "good_cycle =
     \<lparr>aht_xfer = Inr [0, 128, 0, 5, 200, 0], bmp_xfer = Inr [101, 90, 192, 126, 237, 0],
      ens_aqi = Inr 2, ens_tvoc = Inr [45, 0], ens_eco2 = Inr [144, 1],
      mq2_channel = Inr (5000, 0.9375), clock = 1000\<rparr>"

text \<open>A bus on which every write is acknowledged and nothing has been written yet.\<close>

definition ideal_bus :: i2c_bus where
  "ideal_bus = \<lparr>acks = (\<lambda>reg. True), written = []\<rparr>"

text \<open>
  The two words as the specification words them, with \<open>round\<close> to the nearest integer
  of the same float products: \<open>round((T + 273.15) * 64)\<close> and
  \<open>round(H / 100 * 512)\<close>.
\<close>

definition spec_temp_word :: "real \<Rightarrow> int" where
  "spec_temp_word t = rne (double (double (t + double 273.15) * 64))"

definition spec_rh_word :: "real \<Rightarrow> int" where
  "spec_rh_word h = rne (double (double (h / 100) * 512))"

text \<open>The double nearest to -22.9.\<close>

definition minus_22_9 :: real where
  "minus_22_9 = double (- 22.9)"

text \<open>A pass in which every transaction raises.\<close>

definition dead_cycle :: cycle where
  "dead_cycle =
     \<lparr>aht_xfer = Inl OSError, bmp_xfer = Inl OSError, ens_aqi = Inl OSError,
      ens_tvoc = Inl OSError, ens_eco2 = Inl OSError, mq2_channel = Inl OSError,
      clock = 1000\<rparr>"

text \<open>At least one of the four driver blocks adds a field to an empty reading.\<close>

definition contributed :: "collector \<Rightarrow> bmp280 \<Rightarrow> cycle \<Rightarrow> bool" where
  "contributed c b cy \<longleftrightarrow>
     read_aht21 c cy [] \<noteq> [] \<or> fst (read_bmp280 c b cy []) \<noteq> [] \<or>
     read_ens160 c cy [] \<noteq> [] \<or> read_mq2 c cy [] \<noteq> []"

text \<open>The values of field \<open>k\<close> across a window, in chronological order.\<close>

definition field_values :: "string \<Rightarrow> pydict list \<Rightarrow> real list" where
  "field_values k readings = map snd (filter (\<lambda>kv. fst kv = k) (concat readings))"

text \<open>What the loop over \<open>numeric_fields\<close> stores for a key with the values \<open>vs\<close>.\<close>

definition reduced_value :: "pydict \<Rightarrow> string \<Rightarrow> real list \<Rightarrow> real" where
  "reduced_value last_reading k vs =
     (if k \<in> set [''aqi'', ''mq2_status'', ''temperature_source'']
      then (case map_of last_reading k of Some v \<Rightarrow> v | None \<Rightarrow> 0)
      else round_float 2 (mean vs))"

text \<open>\<open>numeric_fields\<close> holds the list \<open>xs\<close> under the key \<open>k\<close> (no entry for no values).\<close>

definition stored :: "(string \<times> real list) list \<Rightarrow> string \<Rightarrow> real list \<Rightarrow> bool" where
  "stored nf k xs \<longleftrightarrow> map_of nf k = (if xs = [] then None else Some xs)"

text \<open>The result dictionary of the reduction before altitude is recomputed.\<close>

definition reduced_fields :: "real \<Rightarrow> pydict list \<Rightarrow> pydict" where
  "reduced_fields now readings =
     fold (reduce_field (last readings)) (collect_values readings)
       [(''timestamp'', now), (''samples_count'', of_nat (length readings)), (''data_source'', 1)]"

text \<open>
  The specification's wording for categorical fields: the value from the
  chronologically last Reading that contains the field.
\<close>

definition last_containing :: "string \<Rightarrow> pydict list \<Rightarrow> real option" where
  "last_containing k readings =
     (case filter (\<lambda>r. map_of r k \<noteq> None) readings of
        [] \<Rightarrow> None
      | r # rs \<Rightarrow> map_of (last (r # rs)) k)"

text \<open>
  A number a Reading can hold, as an \<open>int\<close> or as a \<open>float\<close>: a double of magnitude
  at most \<open>2 ^ 53\<close> (every integer of that size is one).
\<close>

definition reading_value :: "real \<Rightarrow> bool" where
  "reading_value v \<longleftrightarrow> is_double v \<and> \<bar>v\<bar> \<le> 2 ^ 53"

text \<open>
  Windows: the specification's example; one whose last Reading has no gas-index tier;
  one with the pressure readings 1006.53 and 1006.54 and the altitudes the collector
  derives from them.
\<close>

definition spec_window :: "pydict list" where
  "spec_window =
     [[(''temperature'', 20), (''humidity'', 40), (''aqi'', 1)],
      [(''temperature'', 22), (''humidity'', 42), (''aqi'', 1)],
      [(''temperature'', 24), (''humidity'', 44), (''aqi'', 3)]]"

definition gap_window :: "pydict list" where
  "gap_window =
     [[(''temperature'', 20), (''aqi'', 3)],
      [(''temperature'', 22)]]"

definition pressure_window :: "pydict list" where
  "pressure_window =
     [[(''pressure'', double 1006.53), (''altitude'', double 56.1)],
      [(''pressure'', double 1006.54), (''altitude'', double 56.02)]]"

text \<open>A dictionary with distinct keys that carries the single-shot tag.\<close>

definition tagged_single :: "pydict \<Rightarrow> bool" where
  "tagged_single r \<longleftrightarrow> distinct (map fst r) \<and> map_of r ''data_source'' = Some 0"







section \<open>Verified properties\<close>

subsection \<open>Binary floating point\<close>

lemma double_zero: "double 0 = 0"
  by (simp add: double_def)

lemma double_eval:
  assumes "2 powi k \<le> \<bar>x\<bar>" and "\<bar>x\<bar> < 2 powi (k + 1)" and "- 1022 \<le> k"
  shows "double x = of_int (rne (x / 2 powi (k - 52))) * 2 powi (k - 52)"
proof -
  have "0 < (2::real) powi k" by simp
  with assms(1) have pos: "0 < \<bar>x\<bar>" by linarith
  have a: "(2::real) powr real_of_int k = 2 powi k"
    by (rule powr_real_of_int') simp_all
  have b: "(2::real) powr real_of_int (k + 1) = 2 powi (k + 1)"
    by (rule powr_real_of_int') simp_all
  have "2 powr real_of_int k \<le> \<bar>x\<bar> \<and> \<bar>x\<bar> < 2 powr (real_of_int k + 1)"
    using assms(1,2) a b by simp
  then have "\<lfloor>log 2 \<bar>x\<bar>\<rfloor> = k"
    using pos by (simp add: floor_log_eq_powr_iff)
  moreover have "max (k - 52) (- 1074) = k - 52"
    using assms(3) by simp
  ultimately show ?thesis
    using pos by (simp add: double_def Let_def)
qed

lemma double_eval_nat:
  assumes "2 powi (52 - int n) \<le> \<bar>x\<bar>" and "\<bar>x\<bar> < 2 powi (53 - int n)" and "n \<le> 1074"
  shows "double x = of_int (rne (x * 2 ^ n)) / 2 ^ n"
proof -
  have "double x = of_int (rne (x / 2 powi (52 - int n - 52))) * 2 powi (52 - int n - 52)"
    using assms by (intro double_eval) (simp_all add: algebra_simps)
  moreover have "(2::real) powi (52 - int n - 52) = 1 / 2 ^ n"
    by (simp add: power_int_minus_divide)
  ultimately show ?thesis by simp
qed

lemma double_273_15: "double 273.15 = 2402652809016115 / 2 ^ 43"
proof -
  have "double 273.15 = of_int (rne (273.15 * 2 ^ 44)) / 2 ^ 44"
    by (rule double_eval_nat) (simp_all add: power_int_def)
  also have "rne (273.15 * 2 ^ 44) = 4805305618032230"
    by (simp add: rne_def Let_def)
  finally show ?thesis by simp
qed

lemma is_double_25: "is_double 25"
proof -
  have "double 25 = of_int (rne (25 * 2 ^ 48)) / 2 ^ 48"
    by (rule double_eval_nat) (simp_all add: power_int_def)
  also have "rne (25 * 2 ^ 48) = 25 * 2 ^ 48"
    by (simp add: rne_def Let_def)
  finally show ?thesis by (simp add: is_double_def)
qed

lemma is_double_50: "is_double 50"
proof -
  have "double 50 = of_int (rne (50 * 2 ^ 47)) / 2 ^ 47"
    by (rule double_eval_nat) (simp_all add: power_int_def)
  also have "rne (50 * 2 ^ 47) = 50 * 2 ^ 47"
    by (simp add: rne_def Let_def)
  finally show ?thesis by (simp add: is_double_def)
qed

lemma temp_product_25:
  "double (double (25 + double 273.15) * 64) = 2622555134571315 / 2 ^ 37"
proof -
  have "double (25 + double 273.15) = double (25 + 2402652809016115 / 2 ^ 43)"
    by (simp only: double_273_15)
  also have "\<dots> = of_int (rne ((25 + 2402652809016115 / 2 ^ 43) * 2 ^ 44)) / 2 ^ 44"
    by (rule double_eval_nat) (simp_all add: power_int_def)
  also have "rne ((25 + 2402652809016115 / 2 ^ 43) * 2 ^ 44) = 5245110269142630"
    by (simp add: rne_def Let_def)
  also have "real_of_int 5245110269142630 / 2 ^ 44 = 2622555134571315 / 2 ^ 43"
    by simp
  finally have s: "double (25 + double 273.15) = 2622555134571315 / 2 ^ 43" .
  have "double (double (25 + double 273.15) * 64) = double (2622555134571315 / 2 ^ 43 * 64)"
    by (simp only: s)
  also have "\<dots> = of_int (rne (2622555134571315 / 2 ^ 43 * 64 * 2 ^ 38)) / 2 ^ 38"
    by (rule double_eval_nat) (simp_all add: power_int_def)
  also have "rne (2622555134571315 / 2 ^ 43 * 64 * 2 ^ 38) = 5245110269142630"
    by (simp add: rne_def Let_def)
  also have "real_of_int 5245110269142630 / 2 ^ 38 = 2622555134571315 / 2 ^ 37"
    by simp
  finally show ?thesis .
qed

lemma rh_product_50: "double (double (50 / 100) * 512) = 256"
proof -
  have "double (50 / 100) = of_int (rne (50 / 100 * 2 ^ 53)) / 2 ^ 53"
    by (rule double_eval_nat) (simp_all add: power_int_def)
  also have "rne (50 / 100 * 2 ^ 53) = 2 ^ 52"
    by (simp add: rne_def Let_def)
  also have "real_of_int (2 ^ 52) / 2 ^ 53 = 1 / 2"
    by simp
  finally have h: "double (50 / 100) = 1 / 2" .
  have "double (double (50 / 100) * 512) = double (1 / 2 * 512)"
    by (simp only: h)
  also have "\<dots> = of_int (rne (1 / 2 * 512 * 2 ^ 44)) / 2 ^ 44"
    by (rule double_eval_nat) (simp_all add: power_int_def)
  also have "rne (1 / 2 * 512 * 2 ^ 44) = 2 ^ 52"
    by (simp add: rne_def Let_def)
  also have "real_of_int (2 ^ 52) / 2 ^ 44 = 256"
    by simp
  finally show ?thesis .
qed

subsection \<open>Pressure compensation\<close>

lemma compensate_pressure_eq:
  "compensate_pressure s raw =
     (if pressure_divisor s = 0 then None else Some (of_int (p_fixed s raw) / 25600))"
  by (simp add: compensate_pressure_def pressure_divisor_def p_fixed_def Let_def)

lemma compensate_temperature_eq:
  "fst (compensate_temperature s temp_raw) =
     of_int (temperature_fixed (t_fine (snd (compensate_temperature s temp_raw)))) / 100"
  by (simp add: compensate_temperature_def temperature_fixed_def Let_def)

lemma datasheet_state_eq: "datasheet_state = datasheet_calib\<lparr>t_fine := 128422\<rparr>"
  by (simp add: datasheet_state_def compensate_temperature_def datasheet_calib_def Let_def)

lemma datasheet_divisor: "pressure_divisor datasheet_state = 597560748"
  by (simp add: datasheet_state_eq pressure_divisor_def datasheet_calib_def Let_def)

lemma datasheet_p_fixed: "p_fixed datasheet_state 415148 = 25767233"
  by (simp add: p_fixed_def datasheet_divisor Let_def)
     (simp add: datasheet_state_eq datasheet_calib_def)

lemma good_cycle_raw: "read_raw_data (bmp_xfer good_cycle) = Inr (519888, 415148)"
  by (simp add: read_raw_data_def good_cycle_def Let_def)

text \<open>
  Claim C5, as stated: the pressure returned is the fixed-point result divided by 256.
  On the data sheet's example the driver returns 25767233 / 25600 (1006.53 hPa), which
  is not 25767233 / 256.
\<close>

theorem pressure_scaling_counterexample:
  "compensate_pressure datasheet_state 415148 = Some (25767233 / 25600) \<and>
   compensate_pressure datasheet_state 415148 \<noteq>
     Some (of_int (p_fixed datasheet_state 415148) / 256)"
  by (simp add: compensate_pressure_eq datasheet_divisor datasheet_p_fixed)

text \<open>
  Claim C5, amended: the compensated temperature is \<open>(t_fine * 5 + 128) >> 8\<close> divided
  by 100, and whenever the pressure compensation does not fail, the pressure it returns
  is the fixed-point result \<open>p_fixed\<close> divided by 25600 (hectopascal).
\<close>

theorem compensation_scaling:
  "fst (compensate_temperature s temp_raw) =
     of_int (temperature_fixed (t_fine (snd (compensate_temperature s temp_raw)))) / 100 \<and>
   (compensate_pressure s' press_raw \<noteq> None \<longrightarrow>
      compensate_pressure s' press_raw = Some (of_int (p_fixed s' press_raw) / 25600))"
  by (simp add: compensate_pressure_eq compensate_temperature_eq)

theorem compensation_scaling_witness:
  "fst (compensate_temperature datasheet_calib 519888) = 2508 / 100 \<and>
   compensate_pressure datasheet_state 415148 \<noteq> None \<and>
   compensate_pressure datasheet_state 415148 = Some (25767233 / 25600)"
proof -
  have ne: "compensate_pressure datasheet_state 415148 \<noteq> None"
    by (simp add: compensate_pressure_eq datasheet_divisor)
  have tf: "t_fine (snd (compensate_temperature datasheet_calib 519888)) = 128422"
    using datasheet_state_eq by (simp add: datasheet_state_def)
  from compensation_scaling [of datasheet_calib 519888 datasheet_state 415148] ne
  show ?thesis
    by (simp add: tf temperature_fixed_def datasheet_p_fixed)
qed

text \<open>
  Claim C6: when the first-stage divisor of the pressure compensation is zero, the
  compensation returns \<open>None\<close> without dividing, the driver's \<open>read\<close> returns
  \<open>(None, None)\<close>, and the collector's pressure block adds no field to the reading.
\<close>

theorem zero_divisor_no_fields:
  assumes raw: "read_raw_data (bmp_xfer cy) = Inr (temp_raw, press_raw)"
      and zero: "pressure_divisor (snd (compensate_temperature b temp_raw)) = 0"
  shows "compensate_pressure (snd (compensate_temperature b temp_raw)) press_raw = None \<and>
         fst (bmp280_read b (bmp_xfer cy)) = (None, None) \<and>
         fst (read_bmp280 c b cy data) = data"
proof -
  have cp: "compensate_pressure (snd (compensate_temperature b temp_raw)) press_raw = None"
    using zero by (simp add: compensate_pressure_eq)
  have rd: "fst (bmp280_read b (bmp_xfer cy)) = (None, None)"
    using raw cp by (auto simp: bmp280_read_def split: prod.splits)
  have "fst (read_bmp280 c b cy data) = data"
    using rd by (auto simp: read_bmp280_def split: prod.splits option.splits)
  with cp rd show ?thesis by simp
qed

theorem zero_divisor_no_fields_witness:
  "read_raw_data (bmp_xfer good_cycle) = Inr (519888, 415148) \<and>
   pressure_divisor (snd (compensate_temperature faulty_calib 519888)) = 0 \<and>
   compensate_pressure (snd (compensate_temperature faulty_calib 519888)) 415148 = None \<and>
   fst (bmp280_read faulty_calib (bmp_xfer good_cycle)) = (None, None) \<and>
   fst (read_bmp280 ready_collector faulty_calib good_cycle []) = []"
proof -
  have z: "pressure_divisor (snd (compensate_temperature faulty_calib 519888)) = 0"
    by (simp add: pressure_divisor_def compensate_temperature_def faulty_calib_def
        datasheet_calib_def Let_def)
  from zero_divisor_no_fields [OF good_cycle_raw z, of ready_collector "[]"] good_cycle_raw z
  show ?thesis by simp
qed

subsection \<open>Environment compensation of the gas-index driver\<close>

lemma low_byte: "(v::int) AND 0xFF = v mod 256"
proof -
  have "(0xFF::int) = mask 8" by (simp add: mask_eq_exp_minus_1)
  then have "v AND 0xFF = take_bit 8 v" by (simp only: take_bit_eq_mask)
  then show ?thesis by (simp only: take_bit_eq_mod) simp
qed

lemma high_byte: "drop_bit 8 (v::int) AND 0xFF = v div 256 mod 256"
  by (simp only: low_byte drop_bit_eq_div) simp

lemma le_pair_value: "(v::int) mod 256 + 256 * (v div 256 mod 256) = v mod 65536"
proof -
  have "v mod (256 * 256) = 256 * (v div 256 mod 256) + v mod 256"
    by (rule zmod_zmult2_eq) simp
  then show ?thesis by simp
qed

lemma unsigned_short_bytes:
  "read_unsigned_short (v mod 256) (v div 256 mod 256) = v mod 65536"
  using le_pair_value [of v] by (simp add: read_unsigned_short_def push_bit_eq_mult)

lemma write_word_ok:
  "acks bus reg \<Longrightarrow>
   write_word bus reg v =
     Inr (bus\<lparr>written := written bus @ [(ens160_address, reg, [v mod 256, v div 256 mod 256])]\<rparr>)"
  by (simp add: write_word_def write_i2c_block_data_def low_byte high_byte Let_def
      drop_bit_eq_div)

lemma minus_22_9_eq: "minus_22_9 = - 3222888483337011 / 2 ^ 47"
proof -
  have "double (- 22.9) = of_int (rne (- 22.9 * 2 ^ 48)) / 2 ^ 48"
    by (rule double_eval_nat) (simp_all add: power_int_def)
  also have "rne (- 22.9 * 2 ^ 48) = - 6445776966674022"
    by (simp add: rne_def Let_def)
  also have "real_of_int (- 6445776966674022) / 2 ^ 48 = - 3222888483337011 / 2 ^ 47"
    by simp
  finally show ?thesis by (simp only: minus_22_9_def)
qed

lemma is_double_minus_22_9: "is_double minus_22_9"
proof -
  have "double (- 3222888483337011 / 2 ^ 47) =
      of_int (rne (- 3222888483337011 / 2 ^ 47 * 2 ^ 48)) / 2 ^ 48"
    by (rule double_eval_nat) (simp_all add: power_int_def)
  also have "rne (- 3222888483337011 / 2 ^ 47 * 2 ^ 48) = - 6445776966674022"
    by (simp add: rne_def Let_def)
  also have "real_of_int (- 6445776966674022) / 2 ^ 48 = - 3222888483337011 / 2 ^ 47"
    by simp
  finally show ?thesis by (simp only: is_double_def minus_22_9_eq)
qed

lemma temp_product_minus_22_9:
  "double (double (minus_22_9 + double 273.15) * 64) = 8804889115230207 / 2 ^ 39"
proof -
  have "double (minus_22_9 + double 273.15) =
      double (- 3222888483337011 / 2 ^ 47 + 2402652809016115 / 2 ^ 43)"
    by (simp only: double_273_15 minus_22_9_eq)
  also have "\<dots> =
      of_int (rne ((- 3222888483337011 / 2 ^ 47 + 2402652809016115 / 2 ^ 43) * 2 ^ 45)) / 2 ^ 45"
    by (rule double_eval_nat) (simp_all add: power_int_def)
  also have "rne ((- 3222888483337011 / 2 ^ 47 + 2402652809016115 / 2 ^ 43) * 2 ^ 45) =
      8804889115230207"
    by (simp add: rne_def Let_def)
  finally have s: "double (minus_22_9 + double 273.15) = real_of_int 8804889115230207 / 2 ^ 45" .
  have "double (double (minus_22_9 + double 273.15) * 64) =
      double (real_of_int 8804889115230207 / 2 ^ 45 * 64)"
    by (simp only: s)
  also have "\<dots> = of_int (rne (real_of_int 8804889115230207 / 2 ^ 45 * 64 * 2 ^ 39)) / 2 ^ 39"
    by (rule double_eval_nat) (simp_all add: power_int_def)
  also have "rne (real_of_int 8804889115230207 / 2 ^ 45 * 64 * 2 ^ 39) = 8804889115230207"
    by (simp add: rne_def Let_def)
  also have "real_of_int 8804889115230207 / 2 ^ 39 = 8804889115230207 / 2 ^ 39"
    by simp
  finally show ?thesis .
qed

lemma set_environment_acked:
  assumes "acks bus 0x13" and "acks bus 0x15"
    and "\<not> overflows (double (double (t + double 273.15) * 64))"
    and "\<not> overflows (double (double (h / 100) * 512))"
  shows "set_environment bus t h =
     (let temp_k = py_int (double (double (t + double 273.15) * 64));
          rh_fraction = py_int (double (double (h / 100) * 512))
      in (True, bus\<lparr>written := written bus @
            [(ens160_address, 0x13, [temp_k mod 256, temp_k div 256 mod 256]),
             (ens160_address, 0x15, [rh_fraction mod 256, rh_fraction div 256 mod 256])]\<rparr>))"
  using assms by (simp add: set_environment_def write_word_ok Let_def)

lemma ideal_bus_acks: "acks ideal_bus reg"
  by (simp add: ideal_bus_def)

lemma no_overflow_25: "\<not> overflows (double (double (25 + double 273.15) * 64))"
  by (simp only: temp_product_25) (simp add: overflows_def)

lemma no_overflow_minus_22_9: "\<not> overflows (double (double (minus_22_9 + double 273.15) * 64))"
  by (simp only: temp_product_minus_22_9) (simp add: overflows_def)

lemma no_overflow_50: "\<not> overflows (double (double (50 / 100) * 512))"
  by (simp only: rh_product_50) (simp add: overflows_def)

lemma temp_word_25: "py_int (2622555134571315 / 2 ^ 37) = 19081"
  by (simp add: py_int_def)

lemma temp_word_minus_22_9: "py_int (8804889115230207 / 2 ^ 39) = 16015"
  by (simp add: py_int_def)

lemma rh_word_50: "py_int 256 = 256"
  by (simp add: py_int_def)

lemma spec_temp_word_25: "spec_temp_word 25 = 19082"
  by (simp only: spec_temp_word_def temp_product_25) (simp add: rne_def Let_def)

lemma set_environment_25_50:
  "set_environment ideal_bus 25 50 =
     (True, ideal_bus\<lparr>written := written ideal_bus @
        [(ens160_address, 0x13, [19081 mod 256, 19081 div 256 mod 256]),
         (ens160_address, 0x15, [256 mod 256, 256 div 256 mod 256])]\<rparr>)"
  using set_environment_acked [OF ideal_bus_acks ideal_bus_acks no_overflow_25 no_overflow_50]
  by (simp only: temp_product_25 rh_product_50 temp_word_25 rh_word_50 Let_def)

text \<open>
  Claim C7, as stated: the temperature word is \<open>round((T + 273.15) * 64)\<close>. At
  25 degrees and 50 percent the driver writes the bytes 137, 74 (the word 19081), while
  the rounded word 19082 has the bytes 138, 74: the driver converts with \<open>int\<close>, which
  truncates.
\<close>

theorem set_environment_counterexample:
  "written (snd (set_environment ideal_bus 25 50)) =
     [(ens160_address, 0x13, [137, 74]), (ens160_address, 0x15, [0, 1])] \<and>
   [spec_temp_word 25 mod 256, spec_temp_word 25 div 256 mod 256] = [138, 74]"
  using set_environment_25_50 by (simp add: spec_temp_word_25 ideal_bus_def)

text \<open>
  Claim C7, amended: for doubles \<open>T\<close> and \<open>H\<close> whose scaled values do not overflow,
  on a bus that acknowledges both writes, \<open>set_environment\<close> writes to register 0x13
  the word \<open>int((T + 273.15) * 64)\<close> and to register 0x15 the word
  \<open>int(H / 100 * 512)\<close>: the float sum, quotient and products truncated towards
  zero, not rounded, each reduced to 16 bits and sent as two bytes, low byte first. At
  the double nearest to -22.9 the float product lies just below 16016 and the word is
  16015.
\<close>

theorem set_environment_words:
  assumes "acks bus 0x13" and "acks bus 0x15"
    and "is_double t" and "is_double h"
    and "\<not> overflows (double (double (t + double 273.15) * 64))"
    and "\<not> overflows (double (double (h / 100) * 512))"
  shows "(let temp_k = py_int (double (double (t + double 273.15) * 64));
              rh_fraction = py_int (double (double (h / 100) * 512));
              t_lo = temp_k mod 256; t_hi = temp_k div 256 mod 256;
              h_lo = rh_fraction mod 256; h_hi = rh_fraction div 256 mod 256
          in set_environment bus t h =
               (True, bus\<lparr>written := written bus @
                  [(ens160_address, 0x13, [t_lo, t_hi]), (ens160_address, 0x15, [h_lo, h_hi])]\<rparr>) \<and>
             read_unsigned_short t_lo t_hi = temp_k mod 65536 \<and>
             read_unsigned_short h_lo h_hi = rh_fraction mod 65536)"
  using set_environment_acked [OF assms(1,2,5,6)]
  by (simp add: Let_def unsigned_short_bytes)

theorem set_environment_words_witness:
  "acks ideal_bus 0x13 \<and> acks ideal_bus 0x15 \<and> is_double 25 \<and> is_double 50 \<and>
   is_double minus_22_9 \<and>
   \<not> overflows (double (double (25 + double 273.15) * 64)) \<and>
   \<not> overflows (double (double (minus_22_9 + double 273.15) * 64)) \<and>
   \<not> overflows (double (double (50 / 100) * 512)) \<and>
   set_environment ideal_bus 25 50 =
     (True, ideal_bus\<lparr>written :=
        [(ens160_address, 0x13, [137, 74]), (ens160_address, 0x15, [0, 1])]\<rparr>) \<and>
   set_environment ideal_bus minus_22_9 50 =
     (True, ideal_bus\<lparr>written :=
        [(ens160_address, 0x13, [143, 62]), (ens160_address, 0x15, [0, 1])]\<rparr>) \<and>
   read_unsigned_short 137 74 = 19081 \<and> read_unsigned_short 143 62 = 16015 \<and>
   read_unsigned_short 0 1 = 256"
proof -
  have a: "acks ideal_bus 0x13" and b: "acks ideal_bus 0x15"
    by (rule ideal_bus_acks)+
  from set_environment_words [OF a b is_double_25 is_double_50 no_overflow_25 no_overflow_50]
  have w1: "set_environment ideal_bus 25 50 =
          (True, ideal_bus\<lparr>written := written ideal_bus @
             [(ens160_address, 0x13, [19081 mod 256, 19081 div 256 mod 256]),
              (ens160_address, 0x15, [256 mod 256, 256 div 256 mod 256])]\<rparr>) \<and>
        read_unsigned_short (19081 mod 256) (19081 div 256 mod 256) = 19081 mod 65536 \<and>
        read_unsigned_short (256 mod 256) (256 div 256 mod 256) = 256 mod 65536"
    by (simp only: temp_product_25 rh_product_50 temp_word_25 rh_word_50 Let_def)
  from set_environment_words [OF a b is_double_minus_22_9 is_double_50
      no_overflow_minus_22_9 no_overflow_50]
  have w2: "set_environment ideal_bus minus_22_9 50 =
          (True, ideal_bus\<lparr>written := written ideal_bus @
             [(ens160_address, 0x13, [16015 mod 256, 16015 div 256 mod 256]),
              (ens160_address, 0x15, [256 mod 256, 256 div 256 mod 256])]\<rparr>) \<and>
        read_unsigned_short (16015 mod 256) (16015 div 256 mod 256) = 16015 mod 65536 \<and>
        read_unsigned_short (256 mod 256) (256 div 256 mod 256) = 256 mod 65536"
    by (simp only: temp_product_minus_22_9 rh_product_50 temp_word_minus_22_9 rh_word_50 Let_def)
  from w1 w2 a b is_double_25 is_double_50 is_double_minus_22_9
    no_overflow_25 no_overflow_minus_22_9 no_overflow_50
  show ?thesis by (simp add: ideal_bus_def)
qed

subsection \<open>Single-shot and windowed reads\<close>

lemma update_not_Nil: "AList.update k v al \<noteq> []"
  by (cases al) auto

lemma read_aht21_cases:
  "read_aht21 c cy data = data \<and> read_aht21 c cy [] = [] \<or>
   read_aht21 c cy data \<noteq> [] \<and> read_aht21 c cy [] \<noteq> []"
  by (auto simp: read_aht21_def update_not_Nil split: prod.splits option.splits)

lemma read_bmp280_cases:
  "fst (read_bmp280 c b cy data) = data \<and> fst (read_bmp280 c b cy []) = [] \<or>
   fst (read_bmp280 c b cy data) \<noteq> [] \<and> fst (read_bmp280 c b cy []) \<noteq> []"
  by (auto simp: read_bmp280_def update_not_Nil split: prod.splits option.splits)

lemma read_ens160_cases:
  "read_ens160 c cy data = data \<and> read_ens160 c cy [] = [] \<or>
   read_ens160 c cy data \<noteq> [] \<and> read_ens160 c cy [] \<noteq> []"
  by (auto simp: read_ens160_def update_not_Nil split: option.splits)

lemma read_mq2_cases:
  "read_mq2 c cy data = data \<and> read_mq2 c cy [] = [] \<or>
   read_mq2 c cy data \<noteq> [] \<and> read_mq2 c cy [] \<noteq> []"
  by (auto simp: read_mq2_def update_not_Nil split: sum.splits)

lemma driver_fields_empty_iff:
  "fst (driver_fields c b cy) = [] \<longleftrightarrow>
     read_aht21 c cy [] = [] \<and> fst (read_bmp280 c b cy []) = [] \<and>
     read_ens160 c cy [] = [] \<and> read_mq2 c cy [] = []"
proof -
  let ?d1 = "read_aht21 c cy []"
  let ?d2 = "fst (read_bmp280 c b cy ?d1)"
  let ?d3 = "read_ens160 c cy ?d2"
  have df: "fst (driver_fields c b cy) = read_mq2 c cy ?d3"
    by (simp add: driver_fields_def Let_def split: prod.splits)
  show ?thesis
    unfolding df
    using read_bmp280_cases [of c b cy ?d1] read_ens160_cases [of c cy ?d2]
      read_mq2_cases [of c cy ?d3]
    by metis
qed

lemma read_single_measurement_cases:
  "read_single_measurement c b cy =
     (if fst (driver_fields c b cy) \<noteq> []
      then (Some (finish_reading c cy (fst (driver_fields c b cy))),
            c\<lparr>reading_count := reading_count c + 1\<rparr>, snd (driver_fields c b cy))
      else (None, c, snd (driver_fields c b cy)))"
  by (simp add: read_single_measurement_def split: prod.splits)

text \<open>
  Claim C10: a single-shot read raises the reading counter by exactly one if and only if
  at least one driver contributed a field in that cycle; then it returns a record and
  changes nothing else in the collector. When no driver contributes, it returns no
  record and leaves the collector as it was.
\<close>

theorem single_read_counter:
  assumes "read_single_measurement c b cy = (r, c', b')"
  shows "(contributed c b cy \<longrightarrow>
            r \<noteq> None \<and> c' = c\<lparr>reading_count := reading_count c + 1\<rparr>) \<and>
         (\<not> contributed c b cy \<longrightarrow> r = None \<and> c' = c) \<and>
         (reading_count c' = reading_count c + 1 \<longleftrightarrow> contributed c b cy)"
proof -
  have iff: "contributed c b cy \<longleftrightarrow> fst (driver_fields c b cy) \<noteq> []"
    by (simp add: contributed_def driver_fields_empty_iff)
  show ?thesis
    using assms unfolding iff read_single_measurement_cases
    by (auto split: if_splits)
qed

lemma good_cycle_aht: "read_aht21 ready_collector good_cycle [] =
   [(''temperature_aht'', 223 / 10), (''humidity'', 50)]"
  by (simp add: read_aht21_def ready_collector_def good_cycle_def aht21_read_def py_round_def Let_def)

lemma dead_cycle_fields: "driver_fields c b dead_cycle = ([], b)"
  by (simp add: driver_fields_def read_aht21_def read_bmp280_def read_ens160_def read_mq2_def
      dead_cycle_def aht21_read_def bmp280_read_def read_raw_data_def ens160_read_def mq2_read_def)

theorem single_read_counter_witness:
  "contributed ready_collector datasheet_calib good_cycle \<and>
   fst (read_single_measurement ready_collector datasheet_calib good_cycle) \<noteq> None \<and>
   fst (snd (read_single_measurement ready_collector datasheet_calib good_cycle)) =
     ready_collector\<lparr>reading_count := 1\<rparr> \<and>
   \<not> contributed ready_collector datasheet_calib dead_cycle \<and>
   fst (read_single_measurement ready_collector datasheet_calib dead_cycle) = None \<and>
   fst (snd (read_single_measurement ready_collector datasheet_calib dead_cycle)) = ready_collector"
proof -
  have g: "contributed ready_collector datasheet_calib good_cycle"
    by (simp add: contributed_def good_cycle_aht)
  have d: "\<not> contributed ready_collector datasheet_calib dead_cycle"
    using dead_cycle_fields [of ready_collector datasheet_calib]
      driver_fields_empty_iff [of ready_collector datasheet_calib dead_cycle]
    by (simp add: contributed_def)
  obtain r1 c1 b1 where e1:
    "read_single_measurement ready_collector datasheet_calib good_cycle = (r1, c1, b1)"
    by (cases "read_single_measurement ready_collector datasheet_calib good_cycle") auto
  obtain r2 c2 b2 where e2:
    "read_single_measurement ready_collector datasheet_calib dead_cycle = (r2, c2, b2)"
    by (cases "read_single_measurement ready_collector datasheet_calib dead_cycle") auto
  have rc: "reading_count ready_collector = 0" by (simp add: ready_collector_def)
  from single_read_counter [OF e1] single_read_counter [OF e2] g d
  show ?thesis by (simp add: e1 e2 rc)
qed

lemma closed_fields: "driver_fields (close c) b cy = ([], b)"
  by (simp add: driver_fields_def read_aht21_def read_bmp280_def read_ens160_def read_mq2_def
      close_def)

lemma closed_single: "read_single_measurement (close c) b cy = (None, close c, b)"
  by (simp add: read_single_measurement_def closed_fields)

lemma closed_loop: "collect_loop (close c) b hw i n acc = (acc, close c, b)"
  by (induction n arbitrary: i) (simp_all add: closed_single)

text \<open>
  Claim C8, amended: after \<open>close\<close>, a single-shot read returns no record, a windowed
  read returns the empty-window error record (error code 1, sample count 0), and
  neither changes the collector or the pressure driver; these are the results of a
  cycle in which every driver fails, not an error of their own.
\<close>

theorem reads_after_close:
  "read_single_measurement (close c) b cy = (None, close c, b) \<and>
   collect_multiple_readings (close c) b num_readings hw now =
     ([(''error_code'', 1), (''timestamp'', now), (''samples_count'', 0)], close c, b)"
  by (simp add: closed_single collect_multiple_readings_def closed_loop)

lemma dead_single: "read_single_measurement c b dead_cycle = (None, c, b)"
  by (simp add: read_single_measurement_def dead_cycle_fields)

lemma dead_loop: "collect_loop c b (\<lambda>i. dead_cycle) i n acc = (acc, c, b)"
  by (induction n arbitrary: i) (simp_all add: dead_single)

text \<open>
  Claim C8, as stated: a read after \<open>close\<close> fails with an error that says the
  collector is not initialised. On a closed collector whose hardware answers, the
  single-shot read returns \<open>None\<close> and the windowed read returns the error record
  with code 1: exactly what a collector that was never closed returns when its
  hardware does not answer.
\<close>

theorem reads_after_close_counterexample:
  "fst (read_single_measurement (close ready_collector) datasheet_calib good_cycle) = None \<and>
   fst (read_single_measurement ready_collector datasheet_calib dead_cycle) = None \<and>
   fst (collect_multiple_readings (close ready_collector) datasheet_calib 3 (\<lambda>i. good_cycle) 2000) =
     [(''error_code'', 1), (''timestamp'', 2000), (''samples_count'', 0)] \<and>
   fst (collect_multiple_readings ready_collector datasheet_calib 3 (\<lambda>i. dead_cycle) 2000) =
     [(''error_code'', 1), (''timestamp'', 2000), (''samples_count'', 0)]"
  by (simp add: closed_single dead_single collect_multiple_readings_def closed_loop dead_loop)

theorem reads_after_close_witness:
  "read_single_measurement (close ready_collector) datasheet_calib good_cycle =
     (None, ready_collector\<lparr>initialized := False, sensors := []\<rparr>, datasheet_calib) \<and>
   collect_multiple_readings (close ready_collector) datasheet_calib 3 (\<lambda>i. good_cycle) 2000 =
     ([(''error_code'', 1), (''timestamp'', 2000), (''samples_count'', 0)],
      ready_collector\<lparr>initialized := False, sensors := []\<rparr>, datasheet_calib)"
  using reads_after_close [of ready_collector datasheet_calib good_cycle 3 "\<lambda>i. good_cycle" 2000]
  by (simp add: close_def)

lemma compensate_temperature_scratch:
  "compensate_temperature (s\<lparr>t_fine := tf\<rparr>) raw = compensate_temperature s raw"
  by (simp add: compensate_temperature_def Let_def)

lemma compensate_temperature_state:
  "snd (compensate_temperature s raw) = s\<lparr>t_fine := t_fine (snd (compensate_temperature s raw))\<rparr>"
  by (simp add: compensate_temperature_def Let_def)

lemma bmp280_read_scratch:
  "fst (bmp280_read (s\<lparr>t_fine := tf\<rparr>) x) = fst (bmp280_read s x)"
  by (simp add: bmp280_read_def compensate_temperature_scratch
      split: sum.splits prod.splits option.splits)

lemma bmp280_read_state:
  "snd (bmp280_read s x) = s\<lparr>t_fine := t_fine (snd (bmp280_read s x))\<rparr>"
proof (cases "read_raw_data x")
  case (Inl e)
  then show ?thesis by (simp add: bmp280_read_def)
next
  case (Inr p)
  obtain tr pr where p: "p = (tr, pr)" by (cases p)
  have "snd (bmp280_read s x) = snd (compensate_temperature s tr)"
    using Inr p by (simp add: bmp280_read_def split: prod.splits option.splits)
  then show ?thesis
    using compensate_temperature_state [of s tr] by simp
qed

lemma read_bmp280_scratch:
  "fst (read_bmp280 c (b\<lparr>t_fine := tf\<rparr>) cy data) = fst (read_bmp280 c b cy data)"
  using bmp280_read_scratch [where s = b and tf = tf and x = "bmp_xfer cy"]
  by (auto simp: read_bmp280_def split: prod.splits option.splits)

lemma read_bmp280_state:
  "snd (read_bmp280 c b cy data) = b\<lparr>t_fine := t_fine (snd (read_bmp280 c b cy data))\<rparr>"
  using bmp280_read_state [of b "bmp_xfer cy"]
  by (auto simp: read_bmp280_def split: prod.splits option.splits)

lemma driver_fields_fst:
  "fst (driver_fields c b cy) =
     read_mq2 c cy (read_ens160 c cy (fst (read_bmp280 c b cy (read_aht21 c cy []))))"
  by (simp add: driver_fields_def Let_def split: prod.splits)

lemma driver_fields_scratch:
  "fst (driver_fields c (b\<lparr>t_fine := tf\<rparr>) cy) = fst (driver_fields c b cy)"
  by (simp only: driver_fields_fst read_bmp280_scratch)

lemma driver_fields_state:
  "snd (driver_fields c b cy) = b\<lparr>t_fine := t_fine (snd (driver_fields c b cy))\<rparr>"
proof -
  have "snd (driver_fields c b cy) = snd (read_bmp280 c b cy (read_aht21 c cy []))"
    by (simp add: driver_fields_def Let_def split: prod.splits)
  then show ?thesis
    using read_bmp280_state [of c b cy "read_aht21 c cy []"] by simp
qed

lemma empty_loop:
  assumes "\<forall>j. i \<le> j \<and> j < i + n \<longrightarrow> fst (driver_fields c b (hw j)) = []"
  shows "\<exists>tf'. collect_loop c (b\<lparr>t_fine := tf\<rparr>) hw i n acc = (acc, c, b\<lparr>t_fine := tf'\<rparr>)"
  using assms
proof (induction n arbitrary: i tf)
  case 0
  show ?case by (rule exI [of _ tf]) simp
next
  case (Suc n)
  let ?b = "b\<lparr>t_fine := tf\<rparr>"
  have e: "fst (driver_fields c ?b (hw i)) = []"
    using Suc.prems by (simp add: driver_fields_scratch)
  define tf1 where "tf1 = t_fine (snd (driver_fields c ?b (hw i)))"
  have s1: "snd (driver_fields c ?b (hw i)) = b\<lparr>t_fine := tf1\<rparr>"
    using driver_fields_state [of c ?b "hw i"] by (simp add: tf1_def)
  have r: "read_single_measurement c ?b (hw i) = (None, c, b\<lparr>t_fine := tf1\<rparr>)"
    using e s1 by (simp add: read_single_measurement_cases)
  have "\<forall>j. Suc i \<le> j \<and> j < Suc i + n \<longrightarrow> fst (driver_fields c b (hw j)) = []"
    using Suc.prems by simp
  from Suc.IH [OF this, where tf = tf1] r show ?case by simp
qed

text \<open>
  Claim C2: when no driver contributes a field in any cycle of the window, the windowed
  read returns the error record with \<open>error_code\<close> 1 and sample count 0, which holds
  no data field, and leaves the collector unchanged.
\<close>

theorem empty_window_error:
  assumes "\<forall>i < nat num_readings. fst (driver_fields c b (hw i)) = []"
  shows "fst (collect_multiple_readings c b num_readings hw now) =
           [(''error_code'', 1), (''timestamp'', now), (''samples_count'', 0)] \<and>
         fst (snd (collect_multiple_readings c b num_readings hw now)) = c"
proof -
  have "\<forall>j. 0 \<le> j \<and> j < 0 + nat num_readings \<longrightarrow> fst (driver_fields c b (hw j)) = []"
    using assms by simp
  from empty_loop [OF this, where tf = "t_fine b" and acc = "[]"]
  obtain tf' where "collect_loop c b hw 0 (nat num_readings) [] = ([], c, b\<lparr>t_fine := tf'\<rparr>)"
    by auto
  then show ?thesis by (simp add: collect_multiple_readings_def)
qed

theorem empty_window_error_witness:
  "fst (driver_fields ready_collector datasheet_calib dead_cycle) = [] \<and>
   fst (collect_multiple_readings ready_collector datasheet_calib 3 (\<lambda>i. dead_cycle) 2000) =
     [(''error_code'', 1), (''timestamp'', 2000), (''samples_count'', 0)] \<and>
   fst (snd (collect_multiple_readings ready_collector datasheet_calib 3 (\<lambda>i. dead_cycle) 2000)) =
     ready_collector"
proof -
  have h: "\<forall>i < nat 3. fst (driver_fields ready_collector datasheet_calib ((\<lambda>i. dead_cycle) i)) = []"
    by (simp add: dead_cycle_fields)
  from empty_window_error [OF h, of 2000] show ?thesis
    by (simp add: dead_cycle_fields)
qed

subsection \<open>Window reduction\<close>

lemma stored_append_value:
  "stored nf k xs \<Longrightarrow> stored (append_value k' v nf) k (xs @ (if k' = k then [v] else []))"
  by (auto simp: stored_def append_value_def update_conv' split: option.splits if_splits)

lemma stored_items:
  "stored nf k xs \<Longrightarrow>
   stored (fold (\<lambda>(key, v) nf. append_value key v nf) r nf) k
     (xs @ map snd (filter (\<lambda>kv. fst kv = k) r))"
proof (induction r arbitrary: nf xs)
  case Nil
  then show ?case by simp
next
  case (Cons kv r)
  obtain k' v where kv: "kv = (k', v)" by (cases kv)
  from stored_append_value [OF Cons.prems, of k' v]
  have "stored (append_value k' v nf) k (xs @ (if k' = k then [v] else []))" .
  from Cons.IH [OF this] show ?case by (cases "k' = k") (simp_all add: kv)
qed

lemma stored_readings:
  "stored nf k xs \<Longrightarrow>
   stored (fold (\<lambda>reading nf. fold (\<lambda>(key, v) nf. append_value key v nf) reading nf) rs nf) k
     (xs @ field_values k rs)"
proof (induction rs arbitrary: nf xs)
  case Nil
  then show ?case by (simp add: field_values_def)
next
  case (Cons r rs)
  from Cons.IH [OF stored_items [OF Cons.prems, of r]]
  show ?case by (simp add: field_values_def)
qed

lemma map_of_collect_values:
  "map_of (collect_values rs) k =
     (if field_values k rs = [] then None else Some (field_values k rs))"
proof -
  have "stored [] k []" by (simp add: stored_def)
  from stored_readings [OF this, of rs] show ?thesis
    by (simp add: stored_def collect_values_def)
qed

lemma distinct_append_value:
  "distinct (map fst nf) \<Longrightarrow> distinct (map fst (append_value k v nf))"
  by (simp add: append_value_def distinct_update split: option.splits)

lemma distinct_items:
  "distinct (map fst nf) \<Longrightarrow>
   distinct (map fst (fold (\<lambda>(key, v) nf. append_value key v nf) r nf))"
  by (induction r arbitrary: nf) (auto simp: distinct_append_value)

lemma distinct_readings:
  "distinct (map fst nf) \<Longrightarrow>
   distinct (map fst (fold (\<lambda>reading nf. fold (\<lambda>(key, v) nf. append_value key v nf) reading nf) rs nf))"
  by (induction rs arbitrary: nf) (auto simp: distinct_items)

lemma distinct_collect_values: "distinct (map fst (collect_values rs))"
  by (simp add: collect_values_def distinct_readings)

lemma map_of_reduce_field:
  "map_of (reduce_field lr (k0, vs0) result) k =
     (if k = k0 \<and> vs0 \<noteq> [] then Some (reduced_value lr k0 vs0) else map_of result k)"
  by (simp add: reduce_field_def reduced_value_def update_conv')

lemma map_of_reduce_fold:
  "distinct (map fst nf) \<Longrightarrow>
   map_of (fold (reduce_field lr) nf result) k =
     (case map_of nf k of
        None \<Rightarrow> map_of result k
      | Some vs \<Rightarrow> if vs = [] then map_of result k else Some (reduced_value lr k vs))"
proof (induction nf arbitrary: result)
  case Nil
  then show ?case by simp
next
  case (Cons kv nf)
  obtain k0 vs0 where kv: "kv = (k0, vs0)" by (cases kv)
  have d: "distinct (map fst nf)" and n: "k0 \<notin> fst ` set nf"
    using Cons.prems by (auto simp: kv)
  have none: "map_of nf k0 = None"
    using n by (simp add: map_of_eq_None_iff)
  show ?case
    using Cons.IH [OF d, of "reduce_field lr (k0, vs0) result"] none
    by (auto simp: kv map_of_reduce_field split: option.splits)
qed

lemma calculate_averages_eq:
  "readings \<noteq> [] \<Longrightarrow>
   calculate_averages now readings =
     (case map_of (reduced_fields now readings) ''pressure'' of
        Some p \<Rightarrow> AList.update ''altitude'' (calculate_altitude p) (reduced_fields now readings)
      | None \<Rightarrow> reduced_fields now readings)"
  by (simp add: calculate_averages_def reduced_fields_def Let_def split: option.splits)

lemma map_of_reduced_fields:
  "field_values k readings \<noteq> [] \<Longrightarrow>
   map_of (reduced_fields now readings) k =
     Some (reduced_value (last readings) k (field_values k readings))"
  by (simp add: reduced_fields_def map_of_reduce_fold [OF distinct_collect_values]
      map_of_collect_values)

lemma map_of_reduced_fields_absent:
  "field_values k readings = [] \<Longrightarrow>
   map_of (reduced_fields now readings) k =
     map_of [(''timestamp'', now), (''samples_count'', of_nat (length readings)),
             (''data_source'', 1)] k"
  by (simp add: reduced_fields_def map_of_reduce_fold [OF distinct_collect_values]
      map_of_collect_values)

lemma map_of_calculate_averages:
  assumes "readings \<noteq> []" and "k \<noteq> ''altitude'' \<or> map_of (reduced_fields now readings) ''pressure'' = None"
  shows "map_of (calculate_averages now readings) k = map_of (reduced_fields now readings) k"
  using assms by (auto simp: calculate_averages_eq update_conv' split: option.splits)

lemma pressure_absent:
  "field_values ''pressure'' readings = [] \<Longrightarrow>
   map_of (reduced_fields now readings) ''pressure'' = None"
  by (simp add: map_of_reduced_fields_absent)

lemma rne_of_int: "rne (of_int m) = m"
  by (simp add: rne_def)

lemma is_double_of_int:
  assumes "2 ^ j \<le> \<bar>m\<bar>" and "\<bar>m\<bar> < 2 ^ Suc j" and "j \<le> 52"
  shows "is_double (of_int m)"
proof -
  let ?n = "52 - j"
  have e1: "(2::real) powi (52 - int ?n) = 2 ^ j"
    using assms(3) by (simp add: power_int_def of_nat_diff)
  have e2: "(2::real) powi (53 - int ?n) = 2 ^ Suc j"
    using assms(3) by (simp add: power_int_def of_nat_diff nat_add_distrib)
  have a: "(2::real) ^ j \<le> \<bar>of_int m\<bar>"
    using assms(1) by (metis of_int_abs of_int_le_iff of_int_numeral of_int_power)
  have b: "\<bar>of_int m\<bar> < (2::real) ^ Suc j"
    using assms(2) by (metis of_int_abs of_int_less_iff of_int_numeral of_int_power)
  have "double (of_int m) = of_int (rne (of_int m * 2 ^ ?n)) / 2 ^ ?n"
    by (rule double_eval_nat) (use a b e1 e2 in simp_all)
  also have "of_int m * (2::real) ^ ?n = of_int (m * 2 ^ ?n)"
    by simp
  also have "rne (of_int (m * 2 ^ ?n)) = m * 2 ^ ?n"
    by (rule rne_of_int)
  finally show ?thesis by (simp add: is_double_def)
qed

lemma reading_value_of_int:
  assumes "2 ^ j \<le> \<bar>m\<bar>" and "\<bar>m\<bar> < 2 ^ Suc j" and "j \<le> 52"
  shows "reading_value (of_int m)"
proof -
  have "\<bar>m\<bar> \<le> 2 ^ 53"
  proof -
    have "(2::int) ^ Suc j \<le> 2 ^ 53"
      using assms(3) by (intro power_increasing) simp_all
    with assms(2) show ?thesis by linarith
  qed
  then have "\<bar>real_of_int m\<bar> \<le> 2 ^ 53"
    by (metis of_int_abs of_int_le_iff of_int_numeral of_int_power)
  with is_double_of_int [OF assms] show ?thesis by (simp add: reading_value_def)
qed

lemma spec_values:
  "reading_value 20" "reading_value 22" "reading_value 24"
  "reading_value 40" "reading_value 42" "reading_value 44"
  using reading_value_of_int [of 4 20] reading_value_of_int [of 4 22] reading_value_of_int [of 4 24]
    reading_value_of_int [of 5 40] reading_value_of_int [of 5 42] reading_value_of_int [of 5 44]
  by simp_all

text \<open>
  Claim C3, amended: for a non-empty window and a field present in at least one
  Reading, a categorical field (gas-index tier, analog-gas status tier,
  temperature-source tag) is reduced to the value it has in the last Reading of the
  window, or to 0 when that Reading does not contain it; any other field is reduced to
  the arithmetic mean of its values as \<open>statistics.mean\<close> returns it (the exact mean
  converted to a float), rounded to 2 decimal places as \<open>round\<close> returns it, except
  altitude when the window has a pressure value (it is then recomputed). Temperatures
  20, 22, 24 reduce to 22 and tiers 1, 1, 3 to 3.
\<close>

theorem window_reduction:
  assumes "readings \<noteq> []" and "field_values k readings \<noteq> []"
  shows "(k \<in> set [''aqi'', ''mq2_status'', ''temperature_source''] \<longrightarrow>
            map_of (calculate_averages now readings) k =
              Some (case map_of (last readings) k of Some v \<Rightarrow> v | None \<Rightarrow> 0)) \<and>
         (k \<notin> set [''aqi'', ''mq2_status'', ''temperature_source''] \<and>
          (k \<noteq> ''altitude'' \<or> field_values ''pressure'' readings = []) \<and>
          (\<forall>v \<in> set (field_values k readings). reading_value v) \<longrightarrow>
            map_of (calculate_averages now readings) k =
              Some (round_float 2 (mean (field_values k readings))))"
proof (intro conjI impI)
  assume c: "k \<in> set [''aqi'', ''mq2_status'', ''temperature_source'']"
  then have "k \<noteq> ''altitude''" by auto
  then have "map_of (calculate_averages now readings) k = map_of (reduced_fields now readings) k"
    using assms(1) by (simp add: map_of_calculate_averages)
  also have "\<dots> = Some (reduced_value (last readings) k (field_values k readings))"
    using assms(2) by (rule map_of_reduced_fields)
  finally show "map_of (calculate_averages now readings) k =
      Some (case map_of (last readings) k of Some v \<Rightarrow> v | None \<Rightarrow> 0)"
    using c by (simp add: reduced_value_def)
next
  assume c: "k \<notin> set [''aqi'', ''mq2_status'', ''temperature_source''] \<and>
          (k \<noteq> ''altitude'' \<or> field_values ''pressure'' readings = []) \<and>
          (\<forall>v \<in> set (field_values k readings). reading_value v)"
  then have "k \<noteq> ''altitude'' \<or> map_of (reduced_fields now readings) ''pressure'' = None"
    using pressure_absent [of readings now] by auto
  with assms(1)
  have "map_of (calculate_averages now readings) k = map_of (reduced_fields now readings) k"
    by (rule map_of_calculate_averages)
  also have "\<dots> = Some (reduced_value (last readings) k (field_values k readings))"
    using assms(2) by (rule map_of_reduced_fields)
  finally show "map_of (calculate_averages now readings) k =
      Some (round_float 2 (mean (field_values k readings)))"
    using c by (simp add: reduced_value_def)
qed

text \<open>
  Claim C4: when the reduced record has a pressure field, its altitude field is
  \<open>calculate_altitude\<close> of that reduced pressure, which is the rounded float mean of
  the window's pressure values; the altitude values of the Readings do not enter it.
  For the pressures 1006.53 and 1006.54 the reduced pressure is 1006.53 and the
  altitude is \<open>calculate_altitude\<close> of it, above 55 metres.
\<close>

theorem altitude_from_reduced_pressure:
  assumes "map_of (calculate_averages now readings) ''pressure'' = Some p"
  shows "map_of (calculate_averages now readings) ''altitude'' = Some (calculate_altitude p) \<and>
         ((\<forall>v \<in> set (field_values ''pressure'' readings). reading_value v) \<longrightarrow>
            p = round_float 2 (mean (field_values ''pressure'' readings)))"
proof -
  have ne: "readings \<noteq> []"
    using assms by (auto simp: calculate_averages_def)
  have rp: "map_of (reduced_fields now readings) ''pressure'' = Some p"
    using assms ne by (simp add: map_of_calculate_averages)
  have fv: "field_values ''pressure'' readings \<noteq> []"
    using rp pressure_absent [of readings now] by auto
  have "map_of (reduced_fields now readings) ''pressure'' =
      Some (reduced_value (last readings) ''pressure'' (field_values ''pressure'' readings))"
    using fv by (rule map_of_reduced_fields)
  with rp have p: "p = round_float 2 (mean (field_values ''pressure'' readings))"
    by (simp add: reduced_value_def)
  have "map_of (calculate_averages now readings) ''altitude'' = Some (calculate_altitude p)"
    using ne rp by (simp add: calculate_averages_eq update_conv')
  with p show ?thesis by simp
qed

text \<open>
  Claim C3, as stated: a categorical field takes the value of the last Reading that
  contains it. In a window of two Readings where only the first has a gas-index tier
  (3), the reduced tier is 0, not 3: the reduction looks the field up in the last
  Reading of the window and falls back to 0.
\<close>

theorem window_reduction_counterexample:
  "map_of (calculate_averages 0 gap_window) ''aqi'' = Some 0 \<and>
   last_containing ''aqi'' gap_window = Some 3"
proof -
  have ne: "gap_window \<noteq> []" by (simp add: gap_window_def)
  have fv: "field_values ''aqi'' gap_window \<noteq> []"
    by (simp add: field_values_def gap_window_def)
  have "map_of (calculate_averages 0 gap_window) ''aqi'' = map_of (reduced_fields 0 gap_window) ''aqi''"
    using ne by (simp add: map_of_calculate_averages)
  also have "\<dots> = Some (reduced_value (last gap_window) ''aqi'' (field_values ''aqi'' gap_window))"
    using fv by (rule map_of_reduced_fields)
  also have "\<dots> = Some 0"
    by (simp add: reduced_value_def gap_window_def)
  finally show ?thesis
    by (simp add: last_containing_def gap_window_def)
qed

lemma double_22: "double 22 = 22" and double_42: "double 42 = 42"
  using spec_values by (simp_all add: reading_value_def is_double_def)

lemma spec_means:
  "round_float 2 (mean [20, 22, 24]) = 22" "round_float 2 (mean [40, 42, 44]) = 42"
  by (simp_all add: round_float_def mean_def py_round_def Let_def double_22 double_42)

theorem window_reduction_witness:
  "spec_window \<noteq> [] \<and> field_values ''temperature'' spec_window \<noteq> [] \<and>
   field_values ''humidity'' spec_window \<noteq> [] \<and> field_values ''aqi'' spec_window \<noteq> [] \<and>
   reading_value 20 \<and> reading_value 22 \<and> reading_value 24 \<and>
   reading_value 40 \<and> reading_value 42 \<and> reading_value 44 \<and>
   map_of (calculate_averages 0 spec_window) ''temperature'' = Some 22 \<and>
   map_of (calculate_averages 0 spec_window) ''humidity'' = Some 42 \<and>
   map_of (calculate_averages 0 spec_window) ''aqi'' = Some 3"
proof -
  have ne: "spec_window \<noteq> []" by (simp add: spec_window_def)
  have t: "field_values ''temperature'' spec_window = [20, 22, 24]"
    by (simp add: field_values_def spec_window_def)
  have h: "field_values ''humidity'' spec_window = [40, 42, 44]"
    by (simp add: field_values_def spec_window_def)
  have a: "field_values ''aqi'' spec_window = [1, 1, 3]"
    by (simp add: field_values_def spec_window_def)
  have t': "field_values ''temperature'' spec_window \<noteq> []" by (simp add: t)
  have h': "field_values ''humidity'' spec_window \<noteq> []" by (simp add: h)
  have a': "field_values ''aqi'' spec_window \<noteq> []" by (simp add: a)
  have l: "map_of (last spec_window) ''aqi'' = Some 3" by (simp add: spec_window_def)
  from window_reduction [OF ne t', of 0] window_reduction [OF ne h', of 0]
    window_reduction [OF ne a', of 0] ne t' h' a' spec_values
  show ?thesis by (simp add: t h l spec_means)
qed

lemma py_round_lower: "x - 1 / 10 ^ nd \<le> py_round nd x"
proof -
  let ?s = "(10::real) ^ nd"
  have s: "0 < ?s" by simp
  have "x * ?s - 1 \<le> of_int \<lfloor>x * ?s\<rfloor>" by linarith
  then have "(x * ?s - 1) / ?s \<le> of_int \<lfloor>x * ?s\<rfloor> / ?s"
    using s by (simp add: divide_right_mono)
  moreover have "(x * ?s - 1) / ?s = x - 1 / ?s"
    using s by (simp add: field_simps)
  moreover have "of_int \<lfloor>x * ?s\<rfloor> / ?s \<le> py_round nd x"
    using s by (auto simp: py_round_def Let_def divide_right_mono)
  ultimately show ?thesis by linarith
qed

lemma powr_upper:
  fixes x a :: real
  assumes "0 < x" and "x \<le> 1" and "0 \<le> a"
  shows "x powr a \<le> 1 / (1 + a * (1 - x))"
proof -
  let ?t = "a * (1 - x)"
  have "0 \<le> 1 - x" using assms(2) by simp
  with assms(3) have t: "0 \<le> ?t" by (rule mult_nonneg_nonneg)
  have "ln x \<le> x - 1" using assms(1) by (rule ln_le_minus_one)
  then have "a * ln x \<le> a * (x - 1)" using assms(3) by (rule mult_left_mono)
  then have "a * ln x \<le> - ?t" by (simp add: algebra_simps)
  then have "exp (a * ln x) \<le> exp (- ?t)" by simp
  also have "exp (- ?t) = 1 / exp ?t" by (simp add: exp_minus inverse_eq_divide)
  also have "1 / exp ?t \<le> 1 / (1 + ?t)"
    by (intro divide_left_mono) (use t exp_ge_add_one_self [of ?t] in simp_all)
  finally show ?thesis using assms(1) by (simp add: powr_def)
qed

lemma altitude_lower:
  assumes "1006 \<le> p" and "p \<le> 1006.55"
  shows "55 < calculate_altitude p"
proof -
  let ?x = "p / 1013.25"
  let ?y = "?x powr 0.1903"
  have x0: "0 < ?x" using assms(1) by simp
  have x1: "?x \<le> 1" using assms(2) by simp
  have "?y \<le> 1 / (1 + 0.1903 * (1 - ?x))"
    by (intro powr_upper) (use x0 x1 in simp_all)
  also have "1 / (1 + 0.1903 * (1 - ?x)) \<le> 1 / (1 + 0.1903 * (1 - 1006.55 / 1013.25))"
    by (intro divide_left_mono) (use assms in \<open>simp_all add: field_simps\<close>)
  finally have y: "?y \<le> 1 / (1 + 0.1903 * (1 - 1006.55 / 1013.25))" .
  have "55.2 \<le> 44330 * (1 - 1 / (1 + 0.1903 * (1 - 1006.55 / 1013.25 :: real)))"
    by simp
  also have "\<dots> \<le> 44330 * (1 - ?y)"
    using y by simp
  finally have z: "55.2 \<le> 44330 * (1 - ?y)" .
  have "44330 * (1 - ?y) - 1 / 10 ^ 2 \<le> py_round 2 (44330 * (1 - ?y))"
    by (rule py_round_lower)
  with z have "55 < py_round 2 (44330 * (1 - ?y))" by simp
  then show ?thesis using assms(1) by (simp add: calculate_altitude_def)
qed

lemma double_1006_53: "double 1006.53 = 4426765754821509 / 2 ^ 42"
proof -
  have "double 1006.53 = of_int (rne (1006.53 * 2 ^ 43)) / 2 ^ 43"
    by (rule double_eval_nat) (simp_all add: power_int_def)
  also have "rne (1006.53 * 2 ^ 43) = 8853531509643018"
    by (simp add: rne_def Let_def)
  also have "real_of_int 8853531509643018 / 2 ^ 43 = 4426765754821509 / 2 ^ 42"
    by simp
  finally show ?thesis .
qed

lemma double_1006_54: "double 1006.54 = 1106702433821655 / 2 ^ 40"
proof -
  have "double 1006.54 = of_int (rne (1006.54 * 2 ^ 43)) / 2 ^ 43"
    by (rule double_eval_nat) (simp_all add: power_int_def)
  also have "rne (1006.54 * 2 ^ 43) = 8853619470573240"
    by (simp add: rne_def Let_def)
  also have "real_of_int 8853619470573240 / 2 ^ 43 = 1106702433821655 / 2 ^ 40"
    by simp
  finally show ?thesis .
qed

lemma reading_value_1006_53: "reading_value (double 1006.53)"
proof -
  have "double (4426765754821509 / 2 ^ 42) =
      of_int (rne (4426765754821509 / 2 ^ 42 * 2 ^ 43)) / 2 ^ 43"
    by (rule double_eval_nat) (simp_all add: power_int_def)
  also have "rne (4426765754821509 / 2 ^ 42 * 2 ^ 43) = 8853531509643018"
    by (simp add: rne_def Let_def)
  also have "real_of_int 8853531509643018 / 2 ^ 43 = 4426765754821509 / 2 ^ 42"
    by simp
  finally have "is_double (4426765754821509 / 2 ^ 42)"
    by (simp only: is_double_def)
  moreover have "\<bar>4426765754821509 / 2 ^ 42 :: real\<bar> \<le> 2 ^ 53" by simp
  ultimately show ?thesis by (simp only: reading_value_def double_1006_53 simp_thms)
qed

lemma reading_value_1006_54: "reading_value (double 1006.54)"
proof -
  have "double (1106702433821655 / 2 ^ 40) =
      of_int (rne (1106702433821655 / 2 ^ 40 * 2 ^ 43)) / 2 ^ 43"
    by (rule double_eval_nat) (simp_all add: power_int_def)
  also have "rne (1106702433821655 / 2 ^ 40 * 2 ^ 43) = 8853619470573240"
    by (simp add: rne_def Let_def)
  also have "real_of_int 8853619470573240 / 2 ^ 43 = 1106702433821655 / 2 ^ 40"
    by simp
  finally have "is_double (1106702433821655 / 2 ^ 40)"
    by (simp only: is_double_def)
  moreover have "\<bar>1106702433821655 / 2 ^ 40 :: real\<bar> \<le> 2 ^ 53" by simp
  ultimately show ?thesis by (simp only: reading_value_def double_1006_54 simp_thms)
qed

lemma pressure_mean:
  "round_float 2 (mean [double 1006.53, double 1006.54]) = double 1006.53"
proof -
  have "mean [double 1006.53, double 1006.54] =
      double ((4426765754821509 / 2 ^ 42 + 1106702433821655 / 2 ^ 40) / 2)"
    by (simp only: mean_def double_1006_53 double_1006_54) simp
  also have "\<dots> =
      of_int (rne ((4426765754821509 / 2 ^ 42 + 1106702433821655 / 2 ^ 40) / 2 * 2 ^ 43)) / 2 ^ 43"
    by (rule double_eval_nat) (simp_all add: power_int_def)
  also have "rne ((4426765754821509 / 2 ^ 42 + 1106702433821655 / 2 ^ 40) / 2 * 2 ^ 43) =
      8853575490108129"
    by (simp add: rne_def Let_def)
  finally have m: "mean [double 1006.53, double 1006.54] = real_of_int 8853575490108129 / 2 ^ 43" .
  have "py_round 2 (real_of_int 8853575490108129 / 2 ^ 43) = 1006.53"
    by (simp add: py_round_def Let_def)
  then show ?thesis by (simp only: round_float_def m)
qed

lemma pressure_values:
  "field_values ''pressure'' pressure_window = [double 1006.53, double 1006.54]"
  unfolding field_values_def pressure_window_def by simp

lemma pressure_window_reduced:
  "map_of (calculate_averages 0 pressure_window) ''pressure'' = Some (double 1006.53)"
proof -
  have ne: "pressure_window \<noteq> []" by (simp add: pressure_window_def)
  have fv: "field_values ''pressure'' pressure_window \<noteq> []"
    by (simp only: pressure_values) simp
  have "map_of (calculate_averages 0 pressure_window) ''pressure'' =
      map_of (reduced_fields 0 pressure_window) ''pressure''"
    using ne by (simp add: map_of_calculate_averages)
  also have "\<dots> = Some (reduced_value (last pressure_window) ''pressure''
      (field_values ''pressure'' pressure_window))"
    using fv by (rule map_of_reduced_fields)
  also have "reduced_value (last pressure_window) ''pressure''
      (field_values ''pressure'' pressure_window) =
      round_float 2 (mean (field_values ''pressure'' pressure_window))"
    by (simp add: reduced_value_def)
  also have "\<dots> = double 1006.53"
    by (simp only: pressure_values pressure_mean)
  finally show ?thesis .
qed

lemma altitude_1006_53: "55 < calculate_altitude (double 1006.53)"
proof (rule altitude_lower)
  show "1006 \<le> double 1006.53" by (simp only: double_1006_53) simp
  show "double 1006.53 \<le> 1006.55" by (simp only: double_1006_53) simp
qed

theorem altitude_from_reduced_pressure_witness:
  "reading_value (double 1006.53) \<and> reading_value (double 1006.54) \<and>
   map_of (calculate_averages 0 pressure_window) ''pressure'' = Some (double 1006.53) \<and>
   map_of (calculate_averages 0 pressure_window) ''altitude'' =
     Some (calculate_altitude (double 1006.53)) \<and>
   round_float 2 (mean (field_values ''pressure'' pressure_window)) = double 1006.53 \<and>
   55 < calculate_altitude (double 1006.53)"
proof -
  have m: "round_float 2 (mean (field_values ''pressure'' pressure_window)) = double 1006.53"
    by (simp only: pressure_values pressure_mean)
  from altitude_from_reduced_pressure [OF pressure_window_reduced]
  have "map_of (calculate_averages 0 pressure_window) ''altitude'' =
      Some (calculate_altitude (double 1006.53))"
    by (rule conjunct1)
  with reading_value_1006_53 reading_value_1006_54 pressure_window_reduced m altitude_1006_53
  show ?thesis by (intro conjI)
qed

lemma distinct_read_aht21: "distinct (map fst data) \<Longrightarrow> distinct (map fst (read_aht21 c cy data))"
  by (auto simp: read_aht21_def distinct_update split: prod.splits option.splits)

lemma distinct_read_bmp280:
  "distinct (map fst data) \<Longrightarrow> distinct (map fst (fst (read_bmp280 c b cy data)))"
  by (auto simp: read_bmp280_def distinct_update split: prod.splits option.splits)

lemma distinct_read_ens160: "distinct (map fst data) \<Longrightarrow> distinct (map fst (read_ens160 c cy data))"
  by (auto simp: read_ens160_def distinct_update split: option.splits)

lemma distinct_read_mq2: "distinct (map fst data) \<Longrightarrow> distinct (map fst (read_mq2 c cy data))"
  by (auto simp: read_mq2_def distinct_update split: sum.splits)

lemma distinct_driver_fields: "distinct (map fst (fst (driver_fields c b cy)))"
  by (simp add: driver_fields_fst distinct_read_aht21 distinct_read_bmp280
      distinct_read_ens160 distinct_read_mq2)

lemma finish_reading_tagged:
  "distinct (map fst data) \<Longrightarrow> tagged_single (finish_reading c cy data)"
  by (auto simp: tagged_single_def finish_reading_def Let_def distinct_update distinct_delete
      update_conv' split: option.splits)

lemma single_tagged:
  "read_single_measurement c b cy = (Some d, c', b') \<Longrightarrow> tagged_single d"
  by (auto simp: read_single_measurement_cases finish_reading_tagged distinct_driver_fields
      split: if_splits)

lemma loop_tagged:
  "collect_loop c b hw i n acc = (rs, c', b') \<Longrightarrow> \<forall>r \<in> set acc. tagged_single r \<Longrightarrow>
   \<forall>r \<in> set rs. tagged_single r"
proof (induction n arbitrary: c b i acc)
  case 0
  then show ?case by simp
next
  case (Suc n)
  obtain r c1 b1 where e: "read_single_measurement c b (hw i) = (r, c1, b1)"
    by (cases "read_single_measurement c b (hw i)") auto
  show ?case
  proof (cases r)
    case None
    with Suc.prems e have "collect_loop c1 b1 hw (Suc i) n acc = (rs, c', b')" by simp
    from Suc.IH [OF this Suc.prems(2)] show ?thesis .
  next
    case (Some d)
    let ?acc = "if d \<noteq> [] then acc @ [d] else acc"
    from Some Suc.prems e have l: "collect_loop c1 b1 hw (Suc i) n ?acc = (rs, c', b')" by simp
    have "tagged_single d" using e Some single_tagged by blast
    with Suc.prems(2) have "\<forall>r \<in> set ?acc. tagged_single r" by auto
    from Suc.IH [OF l this] show ?thesis .
  qed
qed

lemma one_value:
  "distinct (map fst r) \<Longrightarrow> map_of r k = Some v \<Longrightarrow>
   map snd (filter (\<lambda>kv. fst kv = k) r) = [v]"
proof (induction r)
  case Nil
  then show ?case by simp
next
  case (Cons kv r)
  obtain k' v' where kv: "kv = (k', v')" by (cases kv)
  show ?case
  proof (cases "k' = k")
    case True
    then have "k \<notin> fst ` set r" using Cons.prems(1) by (auto simp: kv)
    then have "filter (\<lambda>kv. fst kv = k) r = []" by (auto simp: filter_empty_conv)
    with True Cons.prems(2) show ?thesis by (simp add: kv)
  next
    case False
    with Cons show ?thesis by (simp add: kv)
  qed
qed

lemma tagged_values:
  "\<forall>r \<in> set rs. tagged_single r \<Longrightarrow>
   field_values ''data_source'' rs = replicate (length rs) 0"
proof (induction rs)
  case Nil
  then show ?case by (simp add: field_values_def)
next
  case (Cons r rs)
  then have "map snd (filter (\<lambda>kv. fst kv = ''data_source'') r) = [0]"
    by (simp add: tagged_single_def one_value)
  with Cons show ?case by (simp add: field_values_def)
qed

lemma mean_zeros: "mean (replicate n 0) = 0"
  by (simp add: mean_def sum_list_replicate double_def)

lemma round_float_zero: "round_float nd 0 = 0"
  by (simp add: round_float_def py_round_def double_def)

lemma tagged_window:
  assumes "rs \<noteq> []" and "\<forall>r \<in> set rs. tagged_single r"
  shows "map_of (calculate_averages now rs) ''data_source'' = Some 0"
proof -
  have fv: "field_values ''data_source'' rs = replicate (length rs) 0"
    using assms(2) by (rule tagged_values)
  then have ne: "field_values ''data_source'' rs \<noteq> []"
    using assms(1) by simp
  have "map_of (calculate_averages now rs) ''data_source'' =
      map_of (reduced_fields now rs) ''data_source''"
    using assms(1) by (simp add: map_of_calculate_averages)
  also have "\<dots> = Some (reduced_value (last rs) ''data_source'' (field_values ''data_source'' rs))"
    using ne by (rule map_of_reduced_fields)
  also have "\<dots> = Some 0"
    by (simp add: reduced_value_def fv mean_zeros round_float_zero)
  finally show ?thesis .
qed

text \<open>
  Claim C1 says the record of a windowed read carries the data-source tag 1. What the
  code computes: whenever the window holds at least one Reading, the tag of the record
  returned by the windowed read is 0, the tag of a single-shot Reading. The reduction
  starts from the tag 1 and then overwrites it with the rounded mean of the Readings'
  own tags, which are all 0.
\<close>

theorem windowed_tag_overwritten:
  assumes "fst (collect_loop c b hw 0 (nat num_readings) []) \<noteq> []"
  shows "map_of (fst (collect_multiple_readings c b num_readings hw now)) ''data_source'' = Some 0"
proof -
  obtain rs c' b' where l: "collect_loop c b hw 0 (nat num_readings) [] = (rs, c', b')"
    by (cases "collect_loop c b hw 0 (nat num_readings) []") auto
  have ne: "rs \<noteq> []" using assms l by simp
  have "\<forall>r \<in> set rs. tagged_single r"
    using loop_tagged [OF l] by simp
  with ne have "map_of (calculate_averages now rs) ''data_source'' = Some 0"
    by (rule tagged_window)
  then show ?thesis
    using l ne by (simp add: collect_multiple_readings_def)
qed

lemma loop_keeps_readings:
  "acc \<noteq> [] \<Longrightarrow> fst (collect_loop c b hw i n acc) \<noteq> []"
proof (induction n arbitrary: c b i acc)
  case 0
  then show ?case by simp
next
  case (Suc n)
  obtain r c1 b1 where e: "read_single_measurement c b (hw i) = (r, c1, b1)"
    by (cases "read_single_measurement c b (hw i)") auto
  show ?case
  proof (cases r)
    case None
    with e Suc show ?thesis by simp
  next
    case (Some d)
    have "(if d \<noteq> [] then acc @ [d] else acc) \<noteq> []" using Suc.prems by simp
    from Suc.IH [OF this] e Some show ?thesis by simp
  qed
qed

lemma finish_reading_not_Nil: "finish_reading c cy data \<noteq> []"
  by (simp add: finish_reading_def Let_def update_not_Nil)

lemma loop_first_contributes:
  assumes "contributed c b (hw i)"
  shows "fst (collect_loop c b hw i (Suc n) acc) \<noteq> []"
proof -
  have ne: "fst (driver_fields c b (hw i)) \<noteq> []"
    using assms by (simp add: contributed_def driver_fields_empty_iff)
  let ?d = "finish_reading c (hw i) (fst (driver_fields c b (hw i)))"
  have "(if ?d \<noteq> [] then acc @ [?d] else acc) \<noteq> []"
    by (simp add: finish_reading_not_Nil)
  from loop_keeps_readings [OF this] ne show ?thesis
    by (simp add: read_single_measurement_cases)
qed

lemma good_cycle_contributed: "contributed ready_collector datasheet_calib good_cycle"
  by (simp add: contributed_def good_cycle_aht)

theorem windowed_tag_overwritten_witness:
  "fst (collect_loop ready_collector datasheet_calib (\<lambda>i. good_cycle) 0 (nat 3) []) \<noteq> [] \<and>
   map_of (fst (collect_multiple_readings ready_collector datasheet_calib 3 (\<lambda>i. good_cycle) 2000))
     ''data_source'' = Some 0"
proof -
  have n: "nat 3 = Suc 2" by simp
  have h: "fst (collect_loop ready_collector datasheet_calib (\<lambda>i. good_cycle) 0 (nat 3) []) \<noteq> []"
    unfolding n by (rule loop_first_contributes) (rule good_cycle_contributed)
  from windowed_tag_overwritten [OF h, of 2000] h show ?thesis by simp
qed

subsection \<open>Alarm actuator\<close>



lemma length_stop [simp]: "length (timers (stop_buzzing s)) = length (timers s)"
  by (simp add: stop_buzzing_def cancel_def Let_def split: option.splits)

lemma timer_stop [simp]: "timer (stop_buzzing s) = timer s"
  by (simp add: stop_buzzing_def cancel_def Let_def split: option.splits)

lemma time_stop [simp]: "time_now (stop_buzzing s) = time_now s"
  by (simp add: stop_buzzing_def cancel_def Let_def split: option.splits)

lemma buzzing_stop [simp]: "\<not> buzzing (stop_buzzing s)"
  by (simp add: stop_buzzing_def cancel_def Let_def split: option.splits)


lemma deadline_stop:
  "i < length (timers s) \<Longrightarrow> deadline (timers (stop_buzzing s) ! i) = deadline (timers s ! i)"
  by (auto simp: stop_buzzing_def cancel_def Let_def nth_list_update split: option.splits)










lemma length_fire_due [simp]: "length (timers (fire_due i s)) = length (timers s)"
  by (simp add: fire_due_def)





lemma length_fold_fire_due [simp]: "length (timers (fold fire_due js s)) = length (timers s)"
  by (induction js arbitrary: s) simp_all







lemma length_elapse [simp]: "length (timers (elapse dt s)) = length (timers s)"
  by (simp add: elapse_def)



























lemma run_append: "run (es @ es') s = run es' (run es s)"
  by (simp add: run_def)






end
